theory Spec2Isabelle
  imports Complex_Main
begin

section \<open>The embedding enrichment script \<open>populate_embeddings.py\<close>\<close>

text \<open>
  The script reads the products of one MongoDB collection that have no embedding, asks
  the embedding provider for vectors in batches of \<open>BATCH_SIZE\<close> texts, and writes each
  non-empty vector back with a point update. The model below follows the source line by
  line. The two external services are made explicit:
  \<^item> the collection is a list of documents in the store's natural order; \<open>find\<close>,
    \<open>limit\<close> and \<open>update_one\<close> are the functions \<open>find_limit\<close> and \<open>update_one\<close>;
    a query or an update issued on an open connection is taken to succeed;
  \<^item> the provider is a function from the number of calls made so far and the texts of
    the request to a response, which may be an exception.
  Everything the script does to the outside (connecting, querying, calling the provider,
  updating, sleeping, printing, closing) is recorded in order in a trace.
\<close>

subsection \<open>Documents\<close>

type_synonym oid = nat

type_synonym vec = "real list"

text \<open>A value of a textual field as Python sees it: \<open>None\<close> for a BSON null, else a string.\<close>

datatype py_value = PyNone | PyStr string

text \<open>A stored value of the \<open>embedding\<close> field: a BSON null or an array of numbers.\<close>

datatype emb_value = EmbNull | EmbArr vec

text \<open>
  A document of the collection. A field that the document may lack is an option:
  \<open>None\<close> means that the key is absent (what \<open>product.get\<close> and \<open>$exists\<close> look at).
\<close>

record product =
  ident :: oid
  name :: "py_value option"
  description :: "py_value option"
  embedding :: "emb_value option"

subsection \<open>Configuration (lines 8 to 25)\<close>

type_synonym env = "string \<rightharpoonup> string"

definition getenv :: "env \<Rightarrow> string \<Rightarrow> string \<Rightarrow> string" where
  "getenv e k d = (case e k of None \<Rightarrow> d | Some v \<Rightarrow> v)"

definition MONGO_URI :: "env \<Rightarrow> string" where
  "MONGO_URI e = getenv e ''MONGO_URI'' ''mongodb://localhost:27017/''"

definition MONGO_DB :: "env \<Rightarrow> string" where
  "MONGO_DB e = getenv e ''MONGO_DB'' ''wine''"

definition MONGO_COLLECTION :: "env \<Rightarrow> string" where
  "MONGO_COLLECTION e = getenv e ''MONGO_COLLECTION'' ''stores.bana''"

definition BATCH_SIZE :: nat where
  "BATCH_SIZE = 10"

definition GEMINI_API_KEY :: "env \<Rightarrow> string option" where
  "GEMINI_API_KEY e = e ''LLM_API_KEY''"

text \<open>\<open>not GEMINI_API_KEY\<close>: true for \<open>None\<close> and for the empty string.\<close>

definition key_missing :: "string option \<Rightarrow> bool" where
  "key_missing k = (case k of None \<Rightarrow> True | Some s \<Rightarrow> s = [])"

definition EMBEDDING_MODEL :: string where
  "EMBEDDING_MODEL = ''gemini-embedding-001''"

subsection \<open>The outside world\<close>

datatype message =
    MsgConnected string string
  | MsgConnectError
  | MsgFound nat
  | MsgNoProducts
  | MsgDebugBatch nat
  | MsgRawResponse
  | MsgUpdated oid
  | MsgSkipping oid
  | MsgBatchError nat
  | MsgErrorDetails string
  | MsgFinished nat

datatype event =
    MongoClient string
  | Find nat
  | EmbedContent string "string list"
  | UpdateOne oid vec
  | Sleep nat
  | Print message
  | Close

datatype conn_state = NotOpened | Opened | Closed

record world =
  store :: "product list"
  conn :: conn_state
  trace :: "event list"

definition emit :: "event \<Rightarrow> world \<Rightarrow> world" where
  "emit ev w = w\<lparr>trace := trace w @ [ev]\<rparr>"

text \<open>
  What an exception of the provider call carries as \<open>response\<close>: nothing (the attribute is
  missing or falsy), a response whose \<open>json()\<close> gives the details, or a response whose body
  is not JSON, so that \<open>json()\<close> raises.
\<close>

datatype error_body = NoResponse | JsonBody string | BadBody

text \<open>
  What the provider answers: the call raises, or it returns a response whose
  \<open>embeddings\<close> is \<open>None\<close> or a list of entries, each with \<open>values\<close> \<open>None\<close> or a list of
  numbers.
\<close>

datatype response = Raises error_body | Returns "vec option list option"

type_synonym provider = "nat \<Rightarrow> string list \<Rightarrow> response"

fun is_embed :: "event \<Rightarrow> bool" where
  "is_embed (EmbedContent m ts) = True"
| "is_embed ev = False"

definition calls_made :: "world \<Rightarrow> nat" where
  "calls_made w = length (filter is_embed (trace w))"

text \<open>
  How the store behaves. One of the three statements of the \<open>try\<close> block of lines 28 to
  32 raises (\<open>ClientRaises\<close>, \<open>DbRaises\<close>, \<open>CollectionRaises\<close>), or all three succeed. The
  client connects lazily, so an unreachable server lets the block succeed and makes the
  query of line 46 raise (\<open>QueryRaises\<close>). With \<open>ConnectOk\<close> the server answers.
\<close>

datatype connect_outcome = ConnectOk | ClientRaises | DbRaises | CollectionRaises | QueryRaises

subsection \<open>The query of lines 38 to 46\<close>

text \<open>
  The three branches of \<open>$or\<close>, with MongoDB's meaning: \<open>{"$exists": False}\<close> matches a
  document without the field, an equality with \<open>None\<close> matches a null field and also a
  missing one, and \<open>{"$size": 0}\<close> matches an array of length 0.
\<close>

definition q_not_exists :: "product \<Rightarrow> bool" where
  "q_not_exists p = (embedding p = None)"

definition q_is_none :: "product \<Rightarrow> bool" where
  "q_is_none p = (embedding p = None \<or> embedding p = Some EmbNull)"

definition q_size_zero :: "product \<Rightarrow> bool" where
  "q_size_zero p = (case embedding p of Some (EmbArr v) \<Rightarrow> length v = 0 | _ \<Rightarrow> False)"

definition query :: "product \<Rightarrow> bool" where
  "query p = (q_not_exists p \<or> q_is_none p \<or> q_size_zero p)"

definition find_limit :: "(product \<Rightarrow> bool) \<Rightarrow> nat \<Rightarrow> product list \<Rightarrow> product list" where
  "find_limit q n docs = take n (filter q docs)"

text \<open>
  The specification's notion of a candidate, in its own words: a record whose embedding
  is absent, null, or an empty sequence.
\<close>

definition is_candidate :: "product \<Rightarrow> bool" where
  "is_candidate p =
     (embedding p = None \<or> embedding p = Some EmbNull \<or> embedding p = Some (EmbArr []))"

subsection \<open>The point update of lines 82 to 85\<close>

text \<open>\<open>update_one\<close> changes the first document that matches the filter, if there is one.\<close>

fun update_one :: "oid \<Rightarrow> vec \<Rightarrow> product list \<Rightarrow> product list" where
  "update_one pid v [] = []"
| "update_one pid v (p # ps) =
     (if ident p = pid then p\<lparr>embedding := Some (EmbArr v)\<rparr> # ps
      else p # update_one pid v ps)"

subsection \<open>Batches (lines 56 and 57)\<close>

text \<open>
  \<open>range(start, stop, step)\<close> for a positive step. Python refuses a step of 0; the script's
  step is the constant \<open>BATCH_SIZE\<close>.
\<close>

function py_range :: "nat \<Rightarrow> nat \<Rightarrow> nat \<Rightarrow> nat list" where
  "py_range i stop step =
     (if 0 < step \<and> i < stop then i # py_range (i + step) stop step else [])"
  by pat_completeness auto
termination
  by (relation "measure (\<lambda>(i, stop, step). stop - i)") auto

declare py_range.simps [simp del]

text \<open>The slice \<open>xs[i:j]\<close> for indices that are not negative.\<close>

definition slice :: "'a list \<Rightarrow> nat \<Rightarrow> nat \<Rightarrow> 'a list" where
  "slice xs i j = take (j - i) (drop i xs)"

definition batches :: "product list \<Rightarrow> product list list" where
  "batches products_to_update =
     map (\<lambda>i. slice products_to_update i (i + BATCH_SIZE))
       (py_range 0 (length products_to_update) BATCH_SIZE)"

subsection \<open>The text of a product (line 62)\<close>

text \<open>What an f-string prints for a value: \<open>str(None)\<close> is \<open>None\<close>.\<close>

fun py_str :: "py_value \<Rightarrow> string" where
  "py_str PyNone = ''None''"
| "py_str (PyStr s) = s"

text \<open>\<open>product.get(key, '')\<close> inside the f-string.\<close>

definition get_str :: "py_value option \<Rightarrow> string" where
  "get_str f = (case f of None \<Rightarrow> '''' | Some v \<Rightarrow> py_str v)"

definition text_to_embed :: "product \<Rightarrow> string" where
  "text_to_embed p = get_str (name p) @ '' '' @ get_str (description p)"

subsection \<open>One batch (lines 57 to 98)\<close>

datatype batch_error = ProviderError error_body | TypeError | IndexError

text \<open>The exceptions that end the run.\<close>

datatype py_exception =
  ValueError | UnboundLocalError | ServerSelectionTimeoutError | JSONDecodeError

text \<open>\<open>if embedding:\<close> holds for a list that is not empty; \<open>None\<close> and \<open>[]\<close> are falsy.\<close>

definition truthy :: "vec option \<Rightarrow> bool" where
  "truthy e = (case e of None \<Rightarrow> False | Some v \<Rightarrow> v \<noteq> [])"

text \<open>
  The loop of lines 79 to 89 over \<open>enumerate(product_ids)\<close>, from position \<open>j\<close> on. The
  state is the world and \<open>updated_count\<close>. Reading \<open>embeddings_data[j]\<close> beyond the end
  raises \<open>IndexError\<close>; what was done before stays done.
\<close>

fun update_records ::
  "oid list \<Rightarrow> nat \<Rightarrow> vec option list \<Rightarrow> world \<times> nat \<Rightarrow> (world \<times> nat) \<times> batch_error option" where
  "update_records [] j embeddings_data s = (s, None)"
| "update_records (product_id # rest) j embeddings_data (w, updated_count) =
     (if j < length embeddings_data then
        (let embedding = embeddings_data ! j in
         if truthy embedding then
           update_records rest (Suc j) embeddings_data
             (emit (Print (MsgUpdated product_id))
                (emit (UpdateOne product_id (the embedding))
                   (w\<lparr>store := update_one product_id (the embedding) (store w)\<rparr>)),
              updated_count + 1)
         else
           update_records rest (Suc j) embeddings_data
             (emit (Print (MsgSkipping product_id)) w, updated_count))
      else ((w, updated_count), Some IndexError))"

text \<open>
  The \<open>except\<close> block of lines 91 to 94. It catches what the \<open>try\<close> statement raised and
  prints the error. When the exception has a response, line 94 prints
  \<open>e.response.json()\<close>; if the body is not JSON that call raises inside the handler, and
  nothing catches it. The result is the state and the exception that escapes, if any.
\<close>

definition handler ::
  "nat \<Rightarrow> batch_error \<Rightarrow> world \<times> nat \<Rightarrow> (world \<times> nat) \<times> py_exception option" where
  "handler i e s =
     (let w1 = emit (Print (MsgBatchError (i div BATCH_SIZE))) (fst s)
      in case e of
           ProviderError (JsonBody d) \<Rightarrow> ((emit (Print (MsgErrorDetails d)) w1, snd s), None)
         | ProviderError BadBody \<Rightarrow> ((w1, snd s), Some JSONDecodeError)
         | _ \<Rightarrow> ((w1, snd s), None))"

text \<open>The \<open>try\<close> statement of lines 69 to 94.\<close>

definition try_batch ::
  "provider \<Rightarrow> nat \<Rightarrow> string list \<Rightarrow> oid list \<Rightarrow> world \<times> nat
     \<Rightarrow> (world \<times> nat) \<times> py_exception option" where
  "try_batch client i texts_to_embed product_ids s =
     (let w1 = emit (Print (MsgDebugBatch (length texts_to_embed))) (fst s);
          response = client (calls_made w1) texts_to_embed;
          w2 = emit (EmbedContent EMBEDDING_MODEL texts_to_embed) w1
      in case response of
           Raises b \<Rightarrow> handler i (ProviderError b) (w2, snd s)
         | Returns embeddings \<Rightarrow>
             (let w3 = emit (Print MsgRawResponse) w2
              in case embeddings of
                   None \<Rightarrow> handler i TypeError (w3, snd s)
                 | Some embeddings_data \<Rightarrow>
                     (case update_records product_ids 0 embeddings_data (w3, snd s) of
                        (s', None) \<Rightarrow> (s', None)
                      | (s', Some e) \<Rightarrow> handler i e s')))"

text \<open>
  The body of the \<open>for\<close> loop for the index \<open>i\<close>; \<open>continue\<close> skips the pause too, and
  so does an exception that escapes the handler.
\<close>

definition process_batch ::
  "provider \<Rightarrow> product list \<Rightarrow> nat \<Rightarrow> world \<times> nat
     \<Rightarrow> (world \<times> nat) \<times> py_exception option" where
  "process_batch client products_to_update i s =
     (let batch = slice products_to_update i (i + BATCH_SIZE);
          texts_to_embed = map text_to_embed batch;
          product_ids = map ident batch
      in if texts_to_embed = [] then (s, None)
         else (case try_batch client i texts_to_embed product_ids s of
                 (s', None) \<Rightarrow> ((emit (Sleep 60) (fst s'), snd s'), None)
               | (s', Some ex) \<Rightarrow> (s', Some ex)))"

text \<open>
  The \<open>for\<close> loop over the indices that \<open>range\<close> has produced; an exception that
  escapes a batch ends the loop.
\<close>

fun for_loop ::
  "provider \<Rightarrow> product list \<Rightarrow> nat list \<Rightarrow> world \<times> nat
     \<Rightarrow> (world \<times> nat) \<times> py_exception option" where
  "for_loop client products_to_update [] s = (s, None)"
| "for_loop client products_to_update (i # is) s =
     (case process_batch client products_to_update i s of
        (s', None) \<Rightarrow> for_loop client products_to_update is s'
      | (s', Some ex) \<Rightarrow> (s', Some ex))"

subsection \<open>The run\<close>

text \<open>How the process ends; an exception that nothing catches ends it with status 1.\<close>

datatype ending = SysExit nat | Returned | Uncaught py_exception

fun exit_status :: "ending \<Rightarrow> nat" where
  "exit_status (SysExit n) = n"
| "exit_status Returned = 0"
| "exit_status (Uncaught e) = 1"

text \<open>
  \<open>main\<close>, lines 27 to 101. When \<open>MongoClient\<close> itself raises, the name
  \<open>mongo_client\<close> is not bound, and \<open>mongo_client.close()\<close> in the handler of line 35 raises
  \<open>UnboundLocalError\<close>, which nothing catches; no connection exists then. The query of line
  46 and the loop are outside every \<open>try\<close>, and \<open>close\<close> is not in a \<open>finally\<close>: an
  exception there ends the run as it is.
\<close>

definition main :: "env \<Rightarrow> connect_outcome \<Rightarrow> provider \<Rightarrow> world \<Rightarrow> world \<times> ending" where
  "main e outcome client w0 =
     (let w1 = emit (MongoClient (MONGO_URI e)) w0
      in case outcome of
           ClientRaises \<Rightarrow> (emit (Print MsgConnectError) w1, Uncaught UnboundLocalError)
         | DbRaises \<Rightarrow>
             (emit Close (emit (Print MsgConnectError) (w1\<lparr>conn := Opened\<rparr>)\<lparr>conn := Closed\<rparr>),
              SysExit 1)
         | CollectionRaises \<Rightarrow>
             (emit Close (emit (Print MsgConnectError) (w1\<lparr>conn := Opened\<rparr>)\<lparr>conn := Closed\<rparr>),
              SysExit 1)
         | QueryRaises \<Rightarrow>
             (emit (Find 1000)
                (emit (Print (MsgConnected (MONGO_DB e) (MONGO_COLLECTION e)))
                   (w1\<lparr>conn := Opened\<rparr>)),
              Uncaught ServerSelectionTimeoutError)
         | ConnectOk \<Rightarrow>
             (let w2 = emit (Print (MsgConnected (MONGO_DB e) (MONGO_COLLECTION e)))
                         (w1\<lparr>conn := Opened\<rparr>);
                  products_to_update = find_limit query 1000 (store w2);
                  w3 = emit (Find 1000) w2;
                  total_products = length products_to_update;
                  w4 = emit (Print (MsgFound total_products)) w3
              in if products_to_update = [] then
                   (emit Close (emit (Print MsgNoProducts) w4\<lparr>conn := Closed\<rparr>), SysExit 0)
                 else
                   (case for_loop client products_to_update
                           (py_range 0 total_products BATCH_SIZE) (w4, 0) of
                      (s, Some ex) \<Rightarrow> (fst s, Uncaught ex)
                    | (s, None) \<Rightarrow>
                        (let w5 = emit (Print (MsgFinished (snd s))) (fst s)
                         in (emit Close (w5\<lparr>conn := Closed\<rparr>), Returned)))))"

text \<open>
  The whole script: the module level (lines 8 to 25), then \<open>main\<close>. The environment is
  the one that \<open>load_dotenv\<close> leaves.
\<close>

definition script :: "env \<Rightarrow> connect_outcome \<Rightarrow> provider \<Rightarrow> product list \<Rightarrow> world \<times> ending" where
  "script e outcome client docs =
     (let w0 = \<lparr>store = docs, conn = NotOpened, trace = []\<rparr>
      in if key_missing (GEMINI_API_KEY e) then (w0, Uncaught ValueError)
         else main e outcome client w0)"

subsection \<open>Notions used to state the properties\<close>

text \<open>What one position of a batch adds to the trace, and what it does to the store.\<close>

fun position_events :: "oid \<times> vec option \<Rightarrow> event list" where
  "position_events (pid, e) =
     (if truthy e then [UpdateOne pid (the e), Print (MsgUpdated pid)]
      else [Print (MsgSkipping pid)])"

fun position_store :: "oid \<times> vec option \<Rightarrow> product list \<Rightarrow> product list" where
  "position_store (pid, e) docs = (if truthy e then update_one pid (the e) docs else docs)"

text \<open>The document that a filter on the identifier matches: the first one with it.\<close>

definition lookup :: "oid \<Rightarrow> product list \<Rightarrow> product option" where
  "lookup pid docs = find (\<lambda>p. ident p = pid) docs"

text \<open>The events that write to the store.\<close>

fun is_update :: "event \<Rightarrow> bool" where
  "is_update (UpdateOne pid v) = True"
| "is_update ev = False"

text \<open>
  What holds of the store and the trace throughout a run that started with the documents
  \<open>docs\<close>: no document is added or removed; a document is as it was, or it is as it
  was but for its embedding, which is a non-empty vector that an update has written; every
  update in the trace wrote a non-empty vector, and the document that its identifier finds
  is not a candidate.
\<close>

definition run_invariant :: "product list \<Rightarrow> world \<Rightarrow> bool" where
  "run_invariant docs w \<longleftrightarrow>
     length (store w) = length docs
     \<and> (\<forall>k < length docs.
          store w ! k = docs ! k
          \<or> (\<exists>v. v \<noteq> [] \<and> UpdateOne (ident (docs ! k)) v \<in> set (trace w)
                \<and> store w ! k = (docs ! k)\<lparr>embedding := Some (EmbArr v)\<rparr>))
     \<and> (\<forall>pid v. UpdateOne pid v \<in> set (trace w) \<longrightarrow>
          v \<noteq> [] \<and> (\<forall>p. lookup pid (store w) = Some p \<longrightarrow> \<not> is_candidate p))"

text \<open>The vectors that a response carries; none when the call failed.\<close>

fun vectors_of :: "response \<Rightarrow> vec option list" where
  "vectors_of (Returns (Some es)) = es"
| "vectors_of r = []"

text \<open>The events of one batch after the provider call, and those of the whole batch.\<close>

definition response_events :: "nat \<Rightarrow> oid list \<Rightarrow> response \<Rightarrow> event list" where
  "response_events i ids r =
     (case r of
        Raises b \<Rightarrow>
          Print (MsgBatchError (i div BATCH_SIZE))
            # (case b of JsonBody x \<Rightarrow> [Print (MsgErrorDetails x)] | _ \<Rightarrow> [])
      | Returns None \<Rightarrow> [Print MsgRawResponse, Print (MsgBatchError (i div BATCH_SIZE))]
      | Returns (Some es) \<Rightarrow>
          Print MsgRawResponse # concat (map position_events (zip ids es))
            @ (if length ids \<le> length es then [] else [Print (MsgBatchError (i div BATCH_SIZE))]))"

definition batch_events :: "nat \<Rightarrow> string list \<Rightarrow> oid list \<Rightarrow> response \<Rightarrow> event list" where
  "batch_events i texts ids r =
     [Print (MsgDebugBatch (length texts)), EmbedContent EMBEDDING_MODEL texts]
       @ response_events i ids r @ (if r = Raises BadBody then [] else [Sleep 60])"

text \<open>The exception that escapes the handler of a batch, if any.\<close>

definition escapes :: "response \<Rightarrow> py_exception option" where
  "escapes r = (if r = Raises BadBody then Some JSONDecodeError else None)"

text \<open>The pauses, and the final summary line.\<close>

fun is_sleep :: "event \<Rightarrow> bool" where
  "is_sleep (Sleep n) = True"
| "is_sleep ev = False"

fun is_summary :: "event \<Rightarrow> bool" where
  "is_summary (Print (MsgFinished n)) = True"
| "is_summary ev = False"

subsection \<open>Sample data\<close>

text \<open>A product without an embedding, and a provider that answers every text with one number.\<close>

definition sample_product :: "nat \<Rightarrow> product" where
  "sample_product i =
     \<lparr>ident = i, name = Some (PyStr ''wine''), description = None, embedding = None\<rparr>"

definition sample_products :: "nat \<Rightarrow> product list" where
  "sample_products n = map sample_product [0..<n]"

definition embedded_product :: "nat \<Rightarrow> product" where
  "embedded_product i = (sample_product i)\<lparr>embedding := Some (EmbArr [1, 2])\<rparr>"

definition sample_env :: env where
  "sample_env = [''LLM_API_KEY'' \<mapsto> ''secret'']"

definition sample_provider :: provider where
  "sample_provider k texts = Returns (Some (map (\<lambda>t. Some [1]) texts))"

text \<open>
  A provider whose calls raise without a response, one whose calls raise with a response
  that is not JSON, and one that returns a single vector whatever it is asked.
\<close>

definition failing_provider :: provider where
  "failing_provider k texts = Raises NoResponse"

definition garbled_provider :: provider where
  "garbled_provider k texts = Raises BadBody"

definition short_provider :: provider where
  "short_provider k texts = Returns (Some [Some [1]])"

section \<open>Properties\<close>

subsection \<open>The text of a product\<close>

text \<open>
  Claim C5. The text sent for a product is its name, one space, and its description; a
  field that the product lacks counts as the empty string. So a product named \<open>A\<close> with no
  description gives \<open>A\<close> followed by a space, and a product with neither field gives a
  single space.
\<close>

theorem text_to_embed_concat:
  "text_to_embed (p\<lparr>name := Some (PyStr n), description := Some (PyStr d)\<rparr>) = n @ '' '' @ d
   \<and> text_to_embed (p\<lparr>name := Some (PyStr n), description := None\<rparr>) = n @ '' ''
   \<and> text_to_embed (p\<lparr>name := None, description := Some (PyStr d)\<rparr>) = '' '' @ d
   \<and> text_to_embed (p\<lparr>name := Some (PyStr ''A''), description := None\<rparr>) = ''A ''
   \<and> text_to_embed (p\<lparr>name := None, description := None\<rparr>) = '' ''"
  by (simp add: text_to_embed_def get_str_def)

subsection \<open>Batching\<close>

lemma concat_slices:
  "0 < step \<Longrightarrow>
   concat (map (\<lambda>i. slice xs i (i + step)) (py_range i (length xs) step)) = drop i xs"
proof (induction i "length xs" step rule: py_range.induct)
  case (1 i step)
  show ?case
  proof (cases "i < length xs")
    case True
    have "drop i xs = take step (drop i xs) @ drop (i + step) xs"
      by (metis append_take_drop_id drop_drop add.commute)
    then show ?thesis using 1 True
      by (subst py_range.simps) (simp add: slice_def)
  next
    case False
    then show ?thesis by (subst py_range.simps) simp
  qed
qed

lemma range_count_step:
  fixes stop i step :: nat
  assumes "0 < step" "i < stop"
  shows "(stop - i + step - 1) div step = Suc ((stop - (i + step) + step - 1) div step)"
proof (cases "stop - i < step")
  case True
  with assms have "(stop - i + step - 1) div step = 1"
    by (simp add: div_nat_eqI)
  moreover from True have "(stop - (i + step) + step - 1) div step = 0"
    using assms(1) by simp
  ultimately show ?thesis by simp
next
  case False
  then have "stop - i + step - 1 = (stop - (i + step) + step - 1) + step"
    using assms by arith
  then have "(stop - i + step - 1) div step = ((stop - (i + step) + step - 1) + step) div step"
    by (simp only:)
  also have "\<dots> = Suc ((stop - (i + step) + step - 1) div step)"
    using assms(1) by (simp only: div_add_self2)
  finally show ?thesis .
qed

lemma py_range_length:
  "0 < step \<Longrightarrow> length (py_range i stop step) = (stop - i + step - 1) div step"
proof (induction i stop step rule: py_range.induct)
  case (1 i stop step)
  show ?case
  proof (cases "i < stop")
    case True
    then have "py_range i stop step = i # py_range (i + step) stop step"
      using 1(2) by (subst py_range.simps) simp
    then show ?thesis
      using True 1 range_count_step[of step i stop] by simp
  next
    case False
    then have "py_range i stop step = []" by (subst py_range.simps) simp
    then show ?thesis using False 1(2) by simp
  qed
qed

lemma py_range_nth:
  "0 < step \<Longrightarrow> k < length (py_range i stop step) \<Longrightarrow>
   py_range i stop step ! k = i + k * step"
proof (induction i stop step arbitrary: k rule: py_range.induct)
  case (1 i stop step)
  show ?case
  proof (cases "i < stop")
    case True
    then have e: "py_range i stop step = i # py_range (i + step) stop step"
      using 1(2) by (subst py_range.simps) simp
    show ?thesis
    proof (cases k)
      case 0
      then show ?thesis by (simp add: e)
    next
      case (Suc m)
      then have "m < length (py_range (i + step) stop step)"
        using 1(3) e by simp
      then have "py_range (i + step) stop step ! m = i + step + m * step"
        using 1(1)[of m] 1(2) True by simp
      then show ?thesis using Suc e by simp
    qed
  next
    case False
    then have "py_range i stop step = []" by (subst py_range.simps) simp
    then show ?thesis using 1(3) by simp
  qed
qed

lemma batches_length: "length (batches xs) = (length xs + 9) div 10"
  using py_range_length[of BATCH_SIZE 0 "length xs"] by (simp add: batches_def BATCH_SIZE_def)

lemma batches_nth:
  assumes "k < length (batches xs)"
  shows "batches xs ! k = take BATCH_SIZE (drop (k * BATCH_SIZE) xs)"
proof -
  have k: "k < length (py_range 0 (length xs) BATCH_SIZE)"
    using assms by (simp add: batches_def)
  then have "py_range 0 (length xs) BATCH_SIZE ! k = k * BATCH_SIZE"
    using py_range_nth[of BATCH_SIZE k 0 "length xs"] by (simp add: BATCH_SIZE_def)
  then show ?thesis using k by (simp add: batches_def slice_def)
qed

lemma last_size_arith:
  fixes n k :: nat
  assumes "k < (n + 9) div 10"
  shows "min 10 (n - k * 10) =
     (if Suc k < (n + 9) div 10 then 10 else if n mod 10 = 0 then 10 else n mod 10)"
proof (cases "Suc k < (n + 9) div 10")
  case True
  then have "10 \<le> n - k * 10" by arith
  then show ?thesis using True by simp
next
  case False
  with assms have e: "Suc k = (n + 9) div 10" by simp
  then have b: "k * 10 < n" "n \<le> k * 10 + 10" by arith+
  define m where "m = n - k * 10"
  have m: "n = k * 10 + m" "0 < m" "m \<le> 10"
    using b by (simp_all add: m_def)
  have nm: "n mod 10 = m mod 10"
    by (simp add: m(1))
  show ?thesis
  proof (cases "m = 10")
    case True
    then show ?thesis using False nm by (simp add: m_def)
  next
    case ne: False
    with m have "m < 10" by simp
    then have "n mod 10 = m" "m \<noteq> 0" using nm m(2) by simp_all
    then show ?thesis using False \<open>m < 10\<close> by (simp add: m_def)
  qed
qed

text \<open>
  Claim C4. The batches are the candidate list cut into consecutive pieces: put end to
  end, in order, they give the list back; every batch but the last has \<open>BATCH_SIZE\<close>
  (10) records, and the last has the remainder of the total modulo 10, or 10 when the
  total is a multiple of 10. Batch number \<open>k\<close> is the 10 records from position \<open>10 * k\<close>.
\<close>

theorem batches_contiguous_exhaustive:
  "concat (batches xs) = xs
   \<and> (\<forall>k < length (batches xs).
        batches xs ! k = take BATCH_SIZE (drop (k * BATCH_SIZE) xs)
        \<and> length (batches xs ! k) =
            (if Suc k < length (batches xs) then BATCH_SIZE
             else if length xs mod BATCH_SIZE = 0 then BATCH_SIZE
             else length xs mod BATCH_SIZE))"
proof (intro conjI allI impI)
  show "concat (batches xs) = xs"
    using concat_slices[of BATCH_SIZE xs 0] by (simp add: batches_def BATCH_SIZE_def)
next
  fix k assume k: "k < length (batches xs)"
  show "batches xs ! k = take BATCH_SIZE (drop (k * BATCH_SIZE) xs)"
    by (rule batches_nth[OF k])
  have "length (batches xs ! k) = min 10 (length xs - k * 10)"
    by (simp add: batches_nth[OF k] BATCH_SIZE_def)
  also have "\<dots> = (if Suc k < (length xs + 9) div 10 then 10
                    else if length xs mod 10 = 0 then 10 else length xs mod 10)"
    using k by (intro last_size_arith) (simp add: batches_length)
  finally show "length (batches xs ! k) =
            (if Suc k < length (batches xs) then BATCH_SIZE
             else if length xs mod BATCH_SIZE = 0 then BATCH_SIZE
             else length xs mod BATCH_SIZE)"
    by (simp add: batches_length BATCH_SIZE_def)
qed

lemma py_range_12: "py_range 0 12 10 = [0, 10]"
  by (simp add: py_range.simps)

theorem batches_contiguous_exhaustive_witness:
  "length (batches (sample_products 12)) = 2
   \<and> concat (batches (sample_products 12)) = sample_products 12
   \<and> length (batches (sample_products 12) ! 0) = 10
   \<and> length (batches (sample_products 12) ! 1) = 2"
proof -
  have n: "length (batches (sample_products 12)) = 2"
    by (simp add: batches_length sample_products_def)
  have l: "length (sample_products 12) = 12"
    by (simp add: sample_products_def)
  show ?thesis
    using batches_contiguous_exhaustive[of "sample_products 12"] n l
    by (simp add: BATCH_SIZE_def)
qed

subsection \<open>Basic facts about the trace\<close>

lemma emit_simps [simp]:
  "store (emit ev w) = store w" "conn (emit ev w) = conn w" "trace (emit ev w) = trace w @ [ev]"
  by (simp_all add: emit_def)

subsection \<open>The API key\<close>

text \<open>
  Claim C8. Without the API key in the environment the script stops with a
  \<open>ValueError\<close> at module level: the status is not 0 and the trace is empty, so nothing
  was connected, queried or sent to the provider, and the store is as it was.
\<close>

theorem missing_key_fails_before_io:
  assumes "e ''LLM_API_KEY'' = None"
  shows "script e outcome client docs =
           (\<lparr>store = docs, conn = NotOpened, trace = []\<rparr>, Uncaught ValueError)
         \<and> exit_status (snd (script e outcome client docs)) \<noteq> 0"
  using assms by (simp add: script_def GEMINI_API_KEY_def key_missing_def)

theorem missing_key_fails_before_io_witness:
  "Map.empty ''LLM_API_KEY'' = None
   \<and> script Map.empty ConnectOk sample_provider (sample_products 3) =
       (\<lparr>store = sample_products 3, conn = NotOpened, trace = []\<rparr>, Uncaught ValueError)
   \<and> exit_status (snd (script Map.empty ConnectOk sample_provider (sample_products 3))) = 1"
  using missing_key_fails_before_io[of Map.empty ConnectOk sample_provider "sample_products 3"]
  by simp

subsection \<open>Selection\<close>

lemma query_is_candidate: "query p = is_candidate p"
  by (auto simp: query_def q_not_exists_def q_is_none_def q_size_zero_def is_candidate_def
      split: option.splits emb_value.splits)


text \<open>
  Claim C3, as the code has it. The selection returns the first 1000 candidates in the
  store's order: every record it returns is a candidate of the store (so a record with a
  non-empty embedding is never returned), it returns at most 1000 records, and when the
  store holds at most 1000 candidates it returns every one of them.
\<close>

theorem find_limit_candidates:
  "find_limit query 1000 docs = take 1000 (filter is_candidate docs)
   \<and> (\<forall>p \<in> set (find_limit query 1000 docs). p \<in> set docs \<and> is_candidate p)
   \<and> length (find_limit query 1000 docs) \<le> 1000
   \<and> (length (filter is_candidate docs) \<le> 1000 \<longrightarrow>
        (\<forall>p \<in> set docs. is_candidate p \<longrightarrow> p \<in> set (find_limit query 1000 docs)))"
proof -
  have q: "query = is_candidate" by (rule ext) (rule query_is_candidate)
  have "set (take 1000 (filter is_candidate docs)) \<subseteq> set (filter is_candidate docs)"
    by (rule set_take_subset)
  then show ?thesis by (auto simp: find_limit_def q)
qed

theorem find_limit_candidates_witness:
  "find_limit query 1000
     [sample_product 0, embedded_product 1,
      (sample_product 2)\<lparr>embedding := Some (EmbArr [])\<rparr>,
      (sample_product 3)\<lparr>embedding := Some EmbNull\<rparr>]
   = [sample_product 0,
      (sample_product 2)\<lparr>embedding := Some (EmbArr [])\<rparr>,
      (sample_product 3)\<lparr>embedding := Some EmbNull\<rparr>]"
  using find_limit_candidates[of "[sample_product 0, embedded_product 1,
      (sample_product 2)\<lparr>embedding := Some (EmbArr [])\<rparr>,
      (sample_product 3)\<lparr>embedding := Some EmbNull\<rparr>]"]
  by (simp add: is_candidate_def sample_product_def embedded_product_def)

lemma sample_candidate: "is_candidate (sample_product i)"
  by (simp add: is_candidate_def sample_product_def)


text \<open>
  The claim as it is written fails when the store holds more than 1000 candidates: of
  1001 candidates the last one is not selected.
\<close>

theorem select_misses_candidate_beyond_cap:
  "is_candidate (sample_product 1000)
   \<and> sample_product 1000 \<in> set (sample_products 1001)
   \<and> sample_product 1000 \<notin> set (find_limit query 1000 (sample_products 1001))"
proof -
  have q: "query = is_candidate" by (rule ext) (rule query_is_candidate)
  have f: "filter is_candidate (sample_products 1001) = sample_products 1001"
    by (simp add: sample_products_def sample_candidate)
  have t: "take 1000 (sample_products 1001) = sample_products 1000"
    by (simp add: sample_products_def take_map)
  have "sample_product 1000 \<notin> set (sample_products 1000)"
    by (auto simp: sample_products_def sample_product_def)
  then show ?thesis
    by (simp add: find_limit_def q f t sample_candidate) (simp add: sample_products_def)
qed

text \<open>
  Claim C9. With no candidate in the store the run connects, queries, prints the count
  and the message that there is nothing to do, closes the connection and exits with
  status 0, which is not the status of a failed connect. It calls the provider zero
  times, updates no record, and leaves the store as it was.
\<close>

theorem zero_candidates_exit:
  assumes "\<not> key_missing (GEMINI_API_KEY e)" and "\<forall>p \<in> set docs. \<not> is_candidate p"
  shows "script e ConnectOk client docs =
           (\<lparr>store = docs, conn = Closed,
             trace = [MongoClient (MONGO_URI e),
                      Print (MsgConnected (MONGO_DB e) (MONGO_COLLECTION e)),
                      Find 1000, Print (MsgFound 0), Print MsgNoProducts, Close]\<rparr>,
            SysExit 0)
         \<and> exit_status (snd (script e ConnectOk client docs)) = 0
         \<and> exit_status (snd (script e ConnectOk client docs))
             \<noteq> exit_status (snd (script e DbRaises client docs))
         \<and> Print MsgNoProducts \<in> set (trace (fst (script e ConnectOk client docs)))
         \<and> calls_made (fst (script e ConnectOk client docs)) = 0
         \<and> (\<forall>pid v. UpdateOne pid v \<notin> set (trace (fst (script e ConnectOk client docs))))"
proof -
  have "filter query docs = []"
    using assms(2) by (simp add: query_is_candidate)
  then have r: "script e ConnectOk client docs =
           (\<lparr>store = docs, conn = Closed,
             trace = [MongoClient (MONGO_URI e),
                      Print (MsgConnected (MONGO_DB e) (MONGO_COLLECTION e)),
                      Find 1000, Print (MsgFound 0), Print MsgNoProducts, Close]\<rparr>,
            SysExit 0)"
    using assms(1) by (simp add: script_def main_def Let_def find_limit_def emit_def)
  have f: "exit_status (snd (script e DbRaises client docs)) = 1"
    using assms(1) by (simp add: script_def main_def Let_def)
  show ?thesis
    unfolding r using f by (simp add: calls_made_def)
qed

theorem zero_candidates_exit_witness:
  "\<not> key_missing (GEMINI_API_KEY sample_env)
   \<and> \<not> is_candidate (embedded_product 0)
   \<and> snd (script sample_env ConnectOk sample_provider [embedded_product 0]) = SysExit 0
   \<and> store (fst (script sample_env ConnectOk sample_provider [embedded_product 0]))
       = [embedded_product 0]
   \<and> calls_made (fst (script sample_env ConnectOk sample_provider [embedded_product 0])) = 0"
proof -
  have k: "\<not> key_missing (GEMINI_API_KEY sample_env)"
    by (simp add: key_missing_def GEMINI_API_KEY_def sample_env_def)
  have c: "\<not> is_candidate (embedded_product 0)"
    by (simp add: is_candidate_def embedded_product_def)
  then have a: "\<forall>p \<in> set [embedded_product 0]. \<not> is_candidate p" by simp
  show ?thesis
    using k c zero_candidates_exit[OF k a, of sample_provider] by (simp add: calls_made_def)
qed

subsection \<open>The records of one batch\<close>

lemma update_records_closed:
  "update_records ids j es (w, cnt) =
     ((w\<lparr>store := fold position_store (zip ids (drop j es)) (store w),
         trace := trace w @ concat (map position_events (zip ids (drop j es)))\<rparr>,
       cnt + length (filter truthy (take (length ids) (drop j es)))),
      if length ids \<le> length es - j then None else Some IndexError)"
proof (induction ids j es "(w, cnt)" arbitrary: w cnt rule: update_records.induct)
  case (1 j es)
  then show ?case by simp
next
  case (2 pid rest j es w cnt)
  show ?case
  proof (cases "j < length es")
    case False
    then show ?thesis by simp
  next
    case True
    then have d: "drop j es = es ! j # drop (Suc j) es"
      by (simp add: Cons_nth_drop_Suc)
    have le: "(Suc (length rest) \<le> length es - j) = (length rest \<le> length es - Suc j)"
      using True by arith
    show ?thesis
    proof (cases "truthy (es ! j)")
      case t: True
      show ?thesis
        using True t 2(1)[OF True refl t]
        by (simp add: d emit_def le Let_def)
    next
      case f: False
      show ?thesis
        using True f 2(2)[OF True refl f]
        by (simp add: d emit_def le Let_def)
    qed
  qed
qed

lemma lookup_update_one:
  "lookup pid (update_one pid' v docs) =
     (if pid = pid' then map_option (\<lambda>p. p\<lparr>embedding := Some (EmbArr v)\<rparr>) (lookup pid docs)
      else lookup pid docs)"
  by (induction docs) (auto simp: lookup_def)

lemma lookup_fold_other:
  "pid \<notin> fst ` set ps \<Longrightarrow> lookup pid (fold position_store ps docs) = lookup pid docs"
  by (induction ps arbitrary: docs) (auto simp: lookup_update_one)

lemma lookup_fold_position:
  assumes "distinct (map fst ps)" "k < length ps"
  shows "lookup (fst (ps ! k)) (fold position_store ps docs) =
     (if truthy (snd (ps ! k))
      then map_option (\<lambda>p. p\<lparr>embedding := Some (EmbArr (the (snd (ps ! k))))\<rparr>)
             (lookup (fst (ps ! k)) docs)
      else lookup (fst (ps ! k)) docs)"
  using assms
proof (induction ps arbitrary: docs k)
  case Nil
  then show ?case by simp
next
  case (Cons a ps)
  obtain pid e where a: "a = (pid, e)" by (cases a)
  show ?case
  proof (cases k)
    case 0
    have "pid \<notin> fst ` set ps" using Cons.prems(1) a by simp
    then show ?thesis using 0 a
      by (simp add: lookup_fold_other lookup_update_one)
  next
    case (Suc m)
    then have m: "m < length ps" using Cons.prems(2) by simp
    have ne: "fst (ps ! m) \<noteq> pid"
      using Cons.prems(1) a m by (metis distinct.simps(2) fst_conv list.simps(9) nth_map nth_mem length_map)
    show ?thesis using Suc a m ne Cons.IH[of m] Cons.prems(1)
      by (simp add: lookup_update_one)
  qed
qed


lemma skipping_in_events:
  "Print (MsgSkipping pid) \<in> set (concat (map position_events ps))
   \<longleftrightarrow> (\<exists>e. (pid, e) \<in> set ps \<and> \<not> truthy e)"
  by (induction ps) (auto split: if_splits)

lemma update_in_events:
  "UpdateOne pid v \<in> set (concat (map position_events ps))
   \<longleftrightarrow> (\<exists>e. (pid, e) \<in> set ps \<and> truthy e \<and> v = the e)"
  by (induction ps) (auto split: if_splits)

lemma no_embed_in_events: "filter is_embed (concat (map position_events ps)) = []"
  by (induction ps) auto

lemma distinct_zip_unique:
  assumes "distinct xs" "j < length xs" "j < length ys" "(xs ! j, e) \<in> set (zip xs ys)"
  shows "e = ys ! j"
proof -
  from assms(4) obtain k where k: "k < length xs" "k < length ys" "xs ! k = xs ! j" "ys ! k = e"
    by (auto simp: set_zip)
  then have "k = j" using assms(1,2) by (simp add: nth_eq_iff_index_eq)
  then show ?thesis using k by simp
qed

text \<open>
  Claim C6. Take a batch whose identifiers are distinct, and a position \<open>j\<close> for which the
  provider returned a vector. If that vector is empty (or missing), the record with the
  identifier at position \<open>j\<close> is the same before and after, the skip is printed, no update
  is issued for it, and it is not counted. If the vector is not empty, the record with that
  identifier gets exactly this vector as its embedding through an update keyed by the
  identifier. The counter grows by the number of non-empty vectors at the positions of
  the batch, and the provider is not called again.
\<close>

theorem update_records_per_position:
  assumes d: "distinct product_ids"
    and j: "j < length product_ids" "j < length embeddings_data"
    and r: "update_records product_ids 0 embeddings_data (w, updated_count)
              = ((w', updated_count'), err)"
  shows "(\<not> truthy (embeddings_data ! j) \<longrightarrow>
            lookup (product_ids ! j) (store w') = lookup (product_ids ! j) (store w)
            \<and> Print (MsgSkipping (product_ids ! j)) \<in> set (drop (length (trace w)) (trace w'))
            \<and> (\<forall>v. UpdateOne (product_ids ! j) v \<notin> set (drop (length (trace w)) (trace w'))))
       \<and> (truthy (embeddings_data ! j) \<longrightarrow>
            lookup (product_ids ! j) (store w') =
              map_option (\<lambda>p. p\<lparr>embedding := Some (EmbArr (the (embeddings_data ! j)))\<rparr>)
                (lookup (product_ids ! j) (store w))
            \<and> UpdateOne (product_ids ! j) (the (embeddings_data ! j))
                \<in> set (drop (length (trace w)) (trace w')))
       \<and> updated_count' =
            updated_count + length (filter truthy (take (length product_ids) embeddings_data))
       \<and> calls_made w' = calls_made w"
proof -
  define ps where "ps = zip product_ids embeddings_data"
  have w': "store w' = fold position_store ps (store w)"
       "trace w' = trace w @ concat (map position_events ps)"
    and c: "updated_count' =
            updated_count + length (filter truthy (take (length product_ids) embeddings_data))"
    using r unfolding update_records_closed ps_def by auto
  have dps: "distinct (map fst ps)"
    using d by (simp add: ps_def map_fst_zip_take)
  have jps: "j < length ps" using j by (simp add: ps_def)
  have nth: "ps ! j = (product_ids ! j, embeddings_data ! j)"
    using j by (simp add: ps_def)
  have mem: "(product_ids ! j, embeddings_data ! j) \<in> set ps"
    using jps nth by (metis nth_mem)
  have uniq: "\<And>e. (product_ids ! j, e) \<in> set ps \<Longrightarrow> e = embeddings_data ! j"
    unfolding ps_def using distinct_zip_unique[OF d j] by blast
  have look: "lookup (product_ids ! j) (store w') =
     (if truthy (embeddings_data ! j)
      then map_option (\<lambda>p. p\<lparr>embedding := Some (EmbArr (the (embeddings_data ! j)))\<rparr>)
             (lookup (product_ids ! j) (store w))
      else lookup (product_ids ! j) (store w))"
    using lookup_fold_position[OF dps jps, of "store w"] by (simp add: nth w'(1))
  have new: "drop (length (trace w)) (trace w') = concat (map position_events ps)"
    by (simp add: w'(2))
  have calls: "calls_made w' = calls_made w"
    by (simp add: calls_made_def w'(2) no_embed_in_events)
  show ?thesis
  proof (cases "truthy (embeddings_data ! j)")
    case True
    have "UpdateOne (product_ids ! j) (the (embeddings_data ! j))
            \<in> set (concat (map position_events ps))"
      unfolding update_in_events using mem True by blast
    then show ?thesis using True look c calls new by simp
  next
    case False
    have s: "Print (MsgSkipping (product_ids ! j)) \<in> set (concat (map position_events ps))"
      unfolding skipping_in_events using mem False by blast
    have "\<And>v. UpdateOne (product_ids ! j) v \<notin> set (concat (map position_events ps))"
      unfolding update_in_events using uniq False by blast
    then show ?thesis using False s look c calls new by simp
  qed
qed

theorem update_records_per_position_witness:
  "distinct [0::nat, 1]
   \<and> update_records [0, 1] 0 [Some [1, 2], Some []]
        (\<lparr>store = sample_products 2, conn = Opened, trace = []\<rparr>, 0)
       = ((\<lparr>store = [embedded_product 0, sample_product 1], conn = Opened,
            trace = [UpdateOne 0 [1, 2], Print (MsgUpdated 0), Print (MsgSkipping 1)]\<rparr>, 1), None)
   \<and> lookup 1 [embedded_product 0, sample_product 1] = lookup 1 (sample_products 2)
   \<and> lookup 0 [embedded_product 0, sample_product 1] = Some (embedded_product 0)"
proof -
  have sp: "sample_products 2 = [sample_product 0, sample_product 1]"
    by (simp add: sample_products_def upt_rec)
  have r: "update_records [0, 1] 0 [Some [1, 2], Some []]
        (\<lparr>store = sample_products 2, conn = Opened, trace = []\<rparr>, 0)
       = ((\<lparr>store = [embedded_product 0, sample_product 1], conn = Opened,
            trace = [UpdateOne 0 [1, 2], Print (MsgUpdated 0), Print (MsgSkipping 1)]\<rparr>, 1), None)"
    by (simp add: sp truthy_def emit_def sample_product_def embedded_product_def)
  have d: "distinct [0::nat, 1]" by simp
  show ?thesis
    using d r
      update_records_per_position[OF d _ _ r, of 0]
      update_records_per_position[OF d _ _ r, of 1]
    by (simp add: truthy_def sp lookup_def sample_product_def embedded_product_def)
qed

subsection \<open>One batch in closed form\<close>

lemma calls_made_print [simp]: "calls_made (emit (Print m) w) = calls_made w"
  by (simp add: calls_made_def)

lemma try_batch_closed:
  "try_batch client i texts ids (w, cnt) =
     ((w\<lparr>store := fold position_store (zip ids (vectors_of (client (calls_made w) texts))) (store w),
         trace := trace w @ [Print (MsgDebugBatch (length texts)), EmbedContent EMBEDDING_MODEL texts]
                    @ response_events i ids (client (calls_made w) texts)\<rparr>,
       cnt + length (filter truthy (take (length ids) (vectors_of (client (calls_made w) texts))))),
      escapes (client (calls_made w) texts))"
proof (cases "client (calls_made w) texts")
  case (Raises b)
  then have "try_batch client i texts ids (w, cnt) =
      handler i (ProviderError b)
        (emit (EmbedContent EMBEDDING_MODEL texts) (emit (Print (MsgDebugBatch (length texts))) w), cnt)"
    by (simp add: try_batch_def Let_def)
  then show ?thesis using Raises
    by (cases b) (simp_all add: handler_def response_events_def escapes_def emit_def)
next
  case (Returns embs)
  then have t: "try_batch client i texts ids (w, cnt) =
      (case embs of
         None \<Rightarrow> handler i TypeError
           (emit (Print MsgRawResponse) (emit (EmbedContent EMBEDDING_MODEL texts)
              (emit (Print (MsgDebugBatch (length texts))) w)), cnt)
       | Some es \<Rightarrow>
           (case update_records ids 0 es
              (emit (Print MsgRawResponse) (emit (EmbedContent EMBEDDING_MODEL texts)
                 (emit (Print (MsgDebugBatch (length texts))) w)), cnt) of
              (s', None) \<Rightarrow> (s', None)
            | (s', Some e) \<Rightarrow> handler i e s'))"
    by (simp add: try_batch_def Let_def split: option.splits)
  show ?thesis
  proof (cases embs)
    case None
    then show ?thesis using Returns t
      by (simp add: handler_def response_events_def escapes_def emit_def)
  next
    case (Some es)
    then show ?thesis using Returns t
      by (simp add: handler_def response_events_def escapes_def update_records_closed emit_def)
  qed
qed

lemma process_batch_closed:
  assumes "i < length ps"
  shows "process_batch client ps i (w, cnt) =
     ((w\<lparr>store := fold position_store
                    (zip (map ident (slice ps i (i + BATCH_SIZE)))
                       (vectors_of (client (calls_made w)
                          (map text_to_embed (slice ps i (i + BATCH_SIZE)))))) (store w),
         trace := trace w @ batch_events i (map text_to_embed (slice ps i (i + BATCH_SIZE)))
                   (map ident (slice ps i (i + BATCH_SIZE)))
                   (client (calls_made w) (map text_to_embed (slice ps i (i + BATCH_SIZE))))\<rparr>,
       cnt + length (filter truthy (take (length (slice ps i (i + BATCH_SIZE)))
              (vectors_of (client (calls_made w)
                 (map text_to_embed (slice ps i (i + BATCH_SIZE)))))))),
      escapes (client (calls_made w) (map text_to_embed (slice ps i (i + BATCH_SIZE)))))"
proof -
  have "slice ps i (i + BATCH_SIZE) \<noteq> []"
    using assms by (simp add: slice_def BATCH_SIZE_def)
  then show ?thesis
    by (simp add: process_batch_def Let_def try_batch_closed batch_events_def escapes_def emit_def)
qed

lemma no_update_in_failure:
  "r = Raises b \<or> r = Returns None \<Longrightarrow> UpdateOne pid v \<notin> set (batch_events i texts ids r)"
  by (auto simp: batch_events_def response_events_def split: error_body.splits)

lemma batch_error_in_failure:
  "r = Raises b \<or> r = Returns None \<or> (r = Returns (Some es) \<and> length es < length ids) \<Longrightarrow>
   Print (MsgBatchError (i div BATCH_SIZE)) \<in> set (batch_events i texts ids r)"
  by (auto simp: batch_events_def response_events_def split: error_body.splits)

lemma batch_events_last: "r \<noteq> Raises BadBody \<Longrightarrow> last (batch_events i texts ids r) = Sleep 60"
  by (simp add: batch_events_def)

subsection \<open>A run on two sample products\<close>

lemma sample_key: "\<not> key_missing (GEMINI_API_KEY sample_env)"
  by (simp add: key_missing_def GEMINI_API_KEY_def sample_env_def)

lemma sample_products_2: "sample_products 2 = [sample_product 0, sample_product 1]"
  by (simp add: sample_products_def upt_rec)

lemma py_range_one_batch: "0 < n \<Longrightarrow> n \<le> 10 \<Longrightarrow> py_range 0 n BATCH_SIZE = [0]"
  by (simp add: py_range.simps[of 0] py_range.simps[of 10] BATCH_SIZE_def)

lemma sample_slice:
  "slice (sample_products 2) 0 BATCH_SIZE = sample_products 2"
  "slice (sample_products 2) 0 10 = sample_products 2"
  by (simp_all add: slice_def BATCH_SIZE_def sample_products_2)

lemma sample_main:
  "script sample_env ConnectOk client (sample_products 2) =
     (case process_batch client (sample_products 2) 0
             (\<lparr>store = sample_products 2, conn = Opened,
               trace = [MongoClient (MONGO_URI sample_env),
                        Print (MsgConnected (MONGO_DB sample_env) (MONGO_COLLECTION sample_env)),
                        Find 1000, Print (MsgFound 2)]\<rparr>, 0) of
        (s, Some ex) \<Rightarrow> (fst s, Uncaught ex)
      | (s, None) \<Rightarrow>
          (emit Close (emit (Print (MsgFinished (snd s))) (fst s)\<lparr>conn := Closed\<rparr>), Returned))"
proof -
  have q: "find_limit query 1000 (sample_products 2) = sample_products 2"
    by (simp add: find_limit_def sample_products_2 query_is_candidate is_candidate_def
        sample_product_def)
  have len: "length (sample_products 2) = 2"
    by (simp add: sample_products_2)
  have ne: "sample_products 2 \<noteq> []"
    by (simp add: sample_products_2)
  have rng: "py_range 0 2 BATCH_SIZE = [0]"
    by (rule py_range_one_batch) simp_all
  show ?thesis
    by (simp add: script_def sample_key main_def Let_def q len rng ne emit_def
        split: prod.splits option.splits)
qed

lemma sample_batch:
  "process_batch client (sample_products 2) 0 (w, cnt) =
     ((w\<lparr>store := fold position_store (zip [0, 1] (vectors_of (client (calls_made w)
                      [''wine '', ''wine '']))) (store w),
         trace := trace w @ batch_events 0 [''wine '', ''wine ''] [0, 1]
                    (client (calls_made w) [''wine '', ''wine ''])\<rparr>,
       cnt + length (filter truthy (take 2 (vectors_of (client (calls_made w)
                      [''wine '', ''wine '']))))),
      escapes (client (calls_made w) [''wine '', ''wine '']))"
proof -
  have len: "0 < length (sample_products 2)" "length (sample_products 2) = 2"
    by (simp_all add: sample_products_2)
  have t: "map text_to_embed (sample_products 2) = [''wine '', ''wine '']"
    by (simp add: sample_products_2 text_to_embed_def get_str_def sample_product_def)
  have i: "map ident (sample_products 2) = [0, 1]"
    by (simp add: sample_products_2 sample_product_def)
  show ?thesis
    using process_batch_closed[OF len(1), of client w cnt]
    by (simp add: len sample_slice t i)
qed

lemma sample_run:
  "client 0 [''wine '', ''wine ''] \<noteq> Raises BadBody \<Longrightarrow>
   script sample_env ConnectOk client (sample_products 2) =
     (\<lparr>store = fold position_store (zip [0, 1] (vectors_of (client 0 [''wine '', ''wine ''])))
                 (sample_products 2),
       conn = Closed,
       trace = [MongoClient (MONGO_URI sample_env),
                Print (MsgConnected (MONGO_DB sample_env) (MONGO_COLLECTION sample_env)),
                Find 1000, Print (MsgFound 2)]
               @ batch_events 0 [''wine '', ''wine ''] [0, 1] (client 0 [''wine '', ''wine ''])
               @ [Print (MsgFinished
                    (length (filter truthy (take 2 (vectors_of (client 0 [''wine '', ''wine '']))))))
                  , Close]\<rparr>,
      Returned)"
  by (simp add: sample_main sample_batch calls_made_def escapes_def emit_def)

lemma sample_run_garbled:
  "script sample_env ConnectOk garbled_provider (sample_products 2) =
     (\<lparr>store = sample_products 2, conn = Opened,
       trace = [MongoClient (MONGO_URI sample_env),
                Print (MsgConnected (MONGO_DB sample_env) (MONGO_COLLECTION sample_env)),
                Find 1000, Print (MsgFound 2), Print (MsgDebugBatch 2),
                EmbedContent EMBEDDING_MODEL [''wine '', ''wine ''],
                Print (MsgBatchError 0)]\<rparr>,
      Uncaught JSONDecodeError)"
  by (simp add: sample_main sample_batch calls_made_def escapes_def garbled_provider_def
      batch_events_def response_events_def BATCH_SIZE_def)

lemma sample_run_ok:
  "script sample_env ConnectOk sample_provider (sample_products 2) =
     (\<lparr>store = [(sample_product 0)\<lparr>embedding := Some (EmbArr [1])\<rparr>,
                (sample_product 1)\<lparr>embedding := Some (EmbArr [1])\<rparr>],
       conn = Closed,
       trace = [MongoClient (MONGO_URI sample_env),
                Print (MsgConnected (MONGO_DB sample_env) (MONGO_COLLECTION sample_env)),
                Find 1000, Print (MsgFound 2), Print (MsgDebugBatch 2),
                EmbedContent EMBEDDING_MODEL [''wine '', ''wine ''], Print MsgRawResponse,
                UpdateOne 0 [1], Print (MsgUpdated 0), UpdateOne 1 [1], Print (MsgUpdated 1),
                Sleep 60, Print (MsgFinished 2), Close]\<rparr>,
      Returned)"
  using sample_run[of sample_provider]
  by (simp add: sample_provider_def batch_events_def response_events_def truthy_def
      sample_products_2 sample_product_def)

subsection \<open>A batch that fails\<close>

text \<open>
  Claim C1, as the code has it. Take a batch that is not empty. If the provider call
  raises with no response or with a response whose body decodes, or if the response has
  no list of embeddings, the loop goes on to the remaining batches with the store and the
  counter as they were; the trace has gained the error message of the batch and ends with
  the pause, and holds no update. If the response has fewer vectors than the batch has
  records, the failure is caught in the same way and the loop goes on, but by then the
  vectors that were returned have been applied to the leading records of the batch and
  counted where they are not empty.
\<close>

theorem failed_batch_is_skipped:
  assumes "i < length ps"
  shows
    "(client (calls_made w) (map text_to_embed (slice ps i (i + BATCH_SIZE))) = Raises NoResponse
      \<or> client (calls_made w) (map text_to_embed (slice ps i (i + BATCH_SIZE)))
           = Raises (JsonBody d)
      \<or> client (calls_made w) (map text_to_embed (slice ps i (i + BATCH_SIZE))) = Returns None
      \<longrightarrow> (\<exists>evs. for_loop client ps (i # rest) (w, cnt)
                    = for_loop client ps rest (w\<lparr>trace := trace w @ evs\<rparr>, cnt)
                \<and> Print (MsgBatchError (i div BATCH_SIZE)) \<in> set evs
                \<and> (\<forall>pid v. UpdateOne pid v \<notin> set evs)
                \<and> last evs = Sleep 60))
     \<and> (client (calls_made w) (map text_to_embed (slice ps i (i + BATCH_SIZE))) = Returns (Some es)
        \<and> length es < length (slice ps i (i + BATCH_SIZE))
      \<longrightarrow> (\<exists>evs. for_loop client ps (i # rest) (w, cnt)
                    = for_loop client ps rest
                        (w\<lparr>store := fold position_store
                                      (zip (map ident (slice ps i (i + BATCH_SIZE))) es) (store w),
                           trace := trace w @ evs\<rparr>,
                         cnt + length (filter truthy es))
                \<and> Print (MsgBatchError (i div BATCH_SIZE)) \<in> set evs
                \<and> last evs = Sleep 60))"
proof (intro conjI impI)
  let ?texts = "map text_to_embed (slice ps i (i + BATCH_SIZE))"
  let ?ids = "map ident (slice ps i (i + BATCH_SIZE))"
  let ?r = "client (calls_made w) ?texts"
  {
    assume f: "?r = Raises NoResponse \<or> ?r = Raises (JsonBody d) \<or> ?r = Returns None"
    then have v: "vectors_of ?r = []" by auto
    from f have ne: "?r \<noteq> Raises BadBody" by auto
    then have es: "escapes ?r = None" by (simp add: escapes_def)
    have "for_loop client ps (i # rest) (w, cnt)
            = for_loop client ps rest (w\<lparr>trace := trace w @ batch_events i ?texts ?ids ?r\<rparr>, cnt)"
      by (simp add: process_batch_closed[OF assms] v es)
    moreover have "Print (MsgBatchError (i div BATCH_SIZE)) \<in> set (batch_events i ?texts ?ids ?r)"
      using f batch_error_in_failure[of ?r NoResponse "[]" ?ids i ?texts]
        batch_error_in_failure[of ?r "JsonBody d" "[]" ?ids i ?texts] by blast
    moreover have "\<forall>pid v. UpdateOne pid v \<notin> set (batch_events i ?texts ?ids ?r)"
      using f no_update_in_failure[of ?r NoResponse] no_update_in_failure[of ?r "JsonBody d"]
      by blast
    ultimately show "\<exists>evs. for_loop client ps (i # rest) (w, cnt)
                    = for_loop client ps rest (w\<lparr>trace := trace w @ evs\<rparr>, cnt)
                \<and> Print (MsgBatchError (i div BATCH_SIZE)) \<in> set evs
                \<and> (\<forall>pid v. UpdateOne pid v \<notin> set evs)
                \<and> last evs = Sleep 60"
      using batch_events_last[OF ne] by blast
  }
  {
    assume s: "?r = Returns (Some es) \<and> length es < length (slice ps i (i + BATCH_SIZE))"
    then have v: "vectors_of ?r = es" by simp
    from s have ne: "?r \<noteq> Raises BadBody" by auto
    then have es: "escapes ?r = None" by (simp add: escapes_def)
    have t: "take (length (slice ps i (i + BATCH_SIZE))) es = es" using s by simp
    have "for_loop client ps (i # rest) (w, cnt)
            = for_loop client ps rest
                (w\<lparr>store := fold position_store (zip ?ids es) (store w),
                   trace := trace w @ batch_events i ?texts ?ids ?r\<rparr>,
                 cnt + length (filter truthy es))"
      by (simp add: process_batch_closed[OF assms] v t es)
    moreover have "Print (MsgBatchError (i div BATCH_SIZE)) \<in> set (batch_events i ?texts ?ids ?r)"
      using s batch_error_in_failure[of ?r NoResponse es ?ids i ?texts] by simp
    ultimately show "\<exists>evs. for_loop client ps (i # rest) (w, cnt)
                    = for_loop client ps rest
                        (w\<lparr>store := fold position_store (zip ?ids es) (store w),
                           trace := trace w @ evs\<rparr>,
                         cnt + length (filter truthy es))
                \<and> Print (MsgBatchError (i div BATCH_SIZE)) \<in> set evs
                \<and> last evs = Sleep 60"
      using batch_events_last[OF ne] by blast
  }
qed

theorem failed_batch_is_skipped_witness:
  "(0::nat) < length (sample_products 2)
   \<and> failing_provider 0 [''wine '', ''wine ''] = Raises NoResponse
   \<and> for_loop failing_provider (sample_products 2) [0]
        (\<lparr>store = sample_products 2, conn = Opened, trace = []\<rparr>, 0)
      = ((\<lparr>store = sample_products 2, conn = Opened,
          trace = [Print (MsgDebugBatch 2), EmbedContent EMBEDDING_MODEL [''wine '', ''wine ''],
                   Print (MsgBatchError 0), Sleep 60]\<rparr>, 0), None)
   \<and> short_provider 0 [''wine '', ''wine ''] = Returns (Some [Some [1]])
   \<and> for_loop short_provider (sample_products 2) [0]
        (\<lparr>store = sample_products 2, conn = Opened, trace = []\<rparr>, 0)
      = ((\<lparr>store = [(sample_product 0)\<lparr>embedding := Some (EmbArr [1])\<rparr>, sample_product 1],
          conn = Opened,
          trace = [Print (MsgDebugBatch 2), EmbedContent EMBEDDING_MODEL [''wine '', ''wine ''],
                   Print MsgRawResponse, UpdateOne 0 [1], Print (MsgUpdated 0),
                   Print (MsgBatchError 0), Sleep 60]\<rparr>, 1), None)"
proof -
  have len: "(0::nat) < length (sample_products 2)"
    by (simp add: sample_products_2)
  note sl = sample_slice
  have t: "map text_to_embed (sample_products 2) = [''wine '', ''wine '']"
    by (simp add: sample_products_2 text_to_embed_def get_str_def sample_product_def)
  have i: "map ident (sample_products 2) = [0, 1]"
    by (simp add: sample_products_2 sample_product_def)
  have a: "for_loop failing_provider (sample_products 2) [0]
        (\<lparr>store = sample_products 2, conn = Opened, trace = []\<rparr>, 0)
      = ((\<lparr>store = sample_products 2, conn = Opened,
          trace = [Print (MsgDebugBatch 2), EmbedContent EMBEDDING_MODEL [''wine '', ''wine ''],
                   Print (MsgBatchError 0), Sleep 60]\<rparr>, 0), None)"
    by (simp add: process_batch_closed[OF len] sl t i failing_provider_def batch_events_def
        response_events_def escapes_def BATCH_SIZE_def)
  have b: "for_loop short_provider (sample_products 2) [0]
        (\<lparr>store = sample_products 2, conn = Opened, trace = []\<rparr>, 0)
      = ((\<lparr>store = [(sample_product 0)\<lparr>embedding := Some (EmbArr [1])\<rparr>, sample_product 1],
          conn = Opened,
          trace = [Print (MsgDebugBatch 2), EmbedContent EMBEDDING_MODEL [''wine '', ''wine ''],
                   Print MsgRawResponse, UpdateOne 0 [1], Print (MsgUpdated 0),
                   Print (MsgBatchError 0), Sleep 60]\<rparr>, 1), None)"
    by (simp add: process_batch_closed[OF len] sl t i short_provider_def batch_events_def
        response_events_def escapes_def BATCH_SIZE_def truthy_def)
       (simp add: sample_products_2 sample_product_def truthy_def)
  show ?thesis
    using len a b
      failed_batch_is_skipped[OF len, where client = failing_provider
        and w = "\<lparr>store = sample_products 2, conn = Opened, trace = []\<rparr>"
        and d = "[]" and es = "[Some [1]]" and rest = "[]" and cnt = 0]
      failed_batch_is_skipped[OF len, where client = short_provider
        and w = "\<lparr>store = sample_products 2, conn = Opened, trace = []\<rparr>"
        and d = "[]" and es = "[Some [1]]" and rest = "[]" and cnt = 0]
    by (simp add: failing_provider_def short_provider_def)
qed

text \<open>
  The claim as it is written fails for a response that is too short: of two candidates
  and one returned vector, the first record is updated and counted, and then the batch is
  reported as failed.
\<close>

theorem short_response_partly_applied:
  "short_provider 0 [''wine '', ''wine ''] = Returns (Some [Some [1]])
   \<and> script sample_env ConnectOk short_provider (sample_products 2) =
     (\<lparr>store = [(sample_product 0)\<lparr>embedding := Some (EmbArr [1])\<rparr>, sample_product 1],
       conn = Closed,
       trace = [MongoClient (MONGO_URI sample_env),
                Print (MsgConnected (MONGO_DB sample_env) (MONGO_COLLECTION sample_env)),
                Find 1000, Print (MsgFound 2), Print (MsgDebugBatch 2),
                EmbedContent EMBEDDING_MODEL [''wine '', ''wine ''], Print MsgRawResponse,
                UpdateOne 0 [1], Print (MsgUpdated 0), Print (MsgBatchError 0),
                Sleep 60, Print (MsgFinished 1), Close]\<rparr>,
      Returned)
   \<and> embedding (sample_products 2 ! 0) = None"
  using sample_run[of short_provider]
  by (simp add: short_provider_def batch_events_def response_events_def truthy_def
      sample_products_2 sample_product_def BATCH_SIZE_def)

subsection \<open>What a run writes\<close>

lemma update_records_preserves:
  assumes e: "\<And>w ev. P w \<Longrightarrow> \<not> is_update ev \<Longrightarrow> P (emit ev w)"
    and u: "\<And>w pid v. P w \<Longrightarrow> v \<noteq> [] \<Longrightarrow>
              P (emit (UpdateOne pid v) (w\<lparr>store := update_one pid v (store w)\<rparr>))"
  shows "P (fst s) \<Longrightarrow> P (fst (fst (update_records ids j es s)))"
proof (induction ids j es s rule: update_records.induct)
  case (1 j es s)
  then show ?case by simp
next
  case (2 pid rest j es w cnt)
  show ?case
  proof (cases "j < length es")
    case False
    then show ?thesis using 2(3) by simp
  next
    case True
    show ?thesis
    proof (cases "truthy (es ! j)")
      case t: True
      then have "the (es ! j) \<noteq> []" by (auto simp: truthy_def split: option.splits)
      then have "P (emit (Print (MsgUpdated pid))
                (emit (UpdateOne pid (the (es ! j)))
                   (w\<lparr>store := update_one pid (the (es ! j)) (store w)\<rparr>)))"
        using 2(3) by (intro e u) simp_all
      then show ?thesis using True t 2(1)[OF True refl t] by (simp add: Let_def)
    next
      case f: False
      have "P (emit (Print (MsgSkipping pid)) w)" using 2(3) by (intro e) simp_all
      then show ?thesis using True f 2(2)[OF True refl f] by (simp add: Let_def)
    qed
  qed
qed

lemma handler_preserves:
  assumes e: "\<And>w ev. P w \<Longrightarrow> \<not> is_update ev \<Longrightarrow> P (emit ev w)"
  shows "P (fst s) \<Longrightarrow> P (fst (fst (handler i er s)))"
  by (auto simp: handler_def Let_def split: batch_error.splits error_body.splits intro!: e)

lemma try_batch_preserves:
  assumes e: "\<And>w ev. P w \<Longrightarrow> \<not> is_update ev \<Longrightarrow> P (emit ev w)"
    and u: "\<And>w pid v. P w \<Longrightarrow> v \<noteq> [] \<Longrightarrow>
              P (emit (UpdateOne pid v) (w\<lparr>store := update_one pid v (store w)\<rparr>))"
    and p: "P (fst s)"
  shows "P (fst (fst (try_batch client i ts ids s)))"
proof -
  define w1 where "w1 = emit (Print (MsgDebugBatch (length ts))) (fst s)"
  define w2 where "w2 = emit (EmbedContent EMBEDDING_MODEL ts) w1"
  define w3 where "w3 = emit (Print MsgRawResponse) w2"
  have p1: "P w1" unfolding w1_def using p by (intro e) simp_all
  have p2: "P w2" unfolding w2_def using p1 by (intro e) simp_all
  have p3: "P w3" unfolding w3_def using p2 by (intro e) simp_all
  show ?thesis
  proof (cases "client (calls_made w1) ts")
    case (Raises b)
    then show ?thesis
      using handler_preserves[of P "(w2, snd s)" i "ProviderError b", OF e] p2
      by (simp add: try_batch_def Let_def w1_def w2_def)
  next
    case (Returns embs)
    show ?thesis
    proof (cases embs)
      case None
      then show ?thesis
        using Returns handler_preserves[of P "(w3, snd s)" i TypeError, OF e] p3
        by (simp add: try_batch_def Let_def w1_def w2_def w3_def)
    next
      case (Some es)
      obtain s' er where r: "update_records ids 0 es (w3, snd s) = (s', er)"
        by (cases "update_records ids 0 es (w3, snd s)")
      have ps': "P (fst s')"
        using update_records_preserves[of P "(w3, snd s)" ids 0 es, OF e u] p3 r by simp
      show ?thesis
      proof (cases er)
        case None
        then show ?thesis using Returns Some r ps'
          by (simp add: try_batch_def Let_def w1_def w2_def w3_def)
      next
        case (Some x)
        then show ?thesis
          using Returns \<open>embs = Some es\<close> r handler_preserves[of P s' i x, OF e] ps'
          by (simp add: try_batch_def Let_def w1_def w2_def w3_def)
      qed
    qed
  qed
qed

lemma process_batch_preserves:
  assumes e: "\<And>w ev. P w \<Longrightarrow> \<not> is_update ev \<Longrightarrow> P (emit ev w)"
    and u: "\<And>w pid v. P w \<Longrightarrow> v \<noteq> [] \<Longrightarrow>
              P (emit (UpdateOne pid v) (w\<lparr>store := update_one pid v (store w)\<rparr>))"
    and p: "P (fst s)"
  shows "P (fst (fst (process_batch client ps i s)))"
proof -
  define ts where "ts = map text_to_embed (slice ps i (i + BATCH_SIZE))"
  define ids where "ids = map ident (slice ps i (i + BATCH_SIZE))"
  obtain s' ex where t: "try_batch client i ts ids s = (s', ex)"
    by (cases "try_batch client i ts ids s")
  have p': "P (fst s')"
    using try_batch_preserves[of P s client i ts ids, OF e u p] t by simp
  then have "P (emit (Sleep 60) (fst s'))" by (intro e) simp_all
  then show ?thesis
    using p p' t
    by (cases ex) (simp_all add: process_batch_def Let_def ts_def[symmetric] ids_def[symmetric])
qed

lemma for_loop_preserves:
  assumes e: "\<And>w ev. P w \<Longrightarrow> \<not> is_update ev \<Longrightarrow> P (emit ev w)"
    and u: "\<And>w pid v. P w \<Longrightarrow> v \<noteq> [] \<Longrightarrow>
              P (emit (UpdateOne pid v) (w\<lparr>store := update_one pid v (store w)\<rparr>))"
  shows "P (fst s) \<Longrightarrow> P (fst (fst (for_loop client ps is s)))"
proof (induction "is" arbitrary: s)
  case Nil
  then show ?case by simp
next
  case (Cons i "is")
  obtain s' ex where b: "process_batch client ps i s = (s', ex)"
    by (cases "process_batch client ps i s")
  have p': "P (fst s')"
    using process_batch_preserves[of P s client ps i, OF e u Cons.prems] b by simp
  show ?case
  proof (cases ex)
    case None
    then show ?thesis using b Cons.IH[OF p'] by simp
  next
    case (Some x)
    then show ?thesis using b p' by simp
  qed
qed

lemma update_one_length [simp]: "length (update_one pid v ds) = length ds"
  by (induction ds) auto

lemma update_one_nth:
  "k < length ds \<Longrightarrow>
   update_one pid v ds ! k = ds ! k
   \<or> (ident (ds ! k) = pid \<and> update_one pid v ds ! k = (ds ! k)\<lparr>embedding := Some (EmbArr v)\<rparr>)"
proof (induction ds arbitrary: k)
  case Nil
  then show ?case by simp
next
  case (Cons a ds)
  then show ?case by (cases k) auto
qed

lemma update_one_cases:
  "((\<forall>p \<in> set ds. ident p \<noteq> pid) \<and> update_one pid v ds = ds)
   \<or> (\<exists>pre p post. ds = pre @ p # post \<and> (\<forall>q \<in> set pre. ident q \<noteq> pid) \<and> ident p = pid
        \<and> update_one pid v ds = pre @ p\<lparr>embedding := Some (EmbArr v)\<rparr> # post)"
proof (induction ds)
  case Nil
  then show ?case by simp
next
  case (Cons a ds)
  show ?case
  proof (cases "ident a = pid")
    case True
    then have "a # ds = [] @ a # ds \<and> (\<forall>q \<in> set []. ident q \<noteq> pid) \<and> ident a = pid
        \<and> update_one pid v (a # ds) = [] @ a\<lparr>embedding := Some (EmbArr v)\<rparr> # ds"
      by simp
    then show ?thesis by blast
  next
    case False
    from Cons.IH show ?thesis
    proof
      assume "(\<forall>p \<in> set ds. ident p \<noteq> pid) \<and> update_one pid v ds = ds"
      then show ?thesis using False by simp
    next
      assume "\<exists>pre p post. ds = pre @ p # post \<and> (\<forall>q \<in> set pre. ident q \<noteq> pid) \<and> ident p = pid
        \<and> update_one pid v ds = pre @ p\<lparr>embedding := Some (EmbArr v)\<rparr> # post"
      then obtain pre p post where h: "ds = pre @ p # post" "\<forall>q \<in> set pre. ident q \<noteq> pid"
        "ident p = pid" "update_one pid v ds = pre @ p\<lparr>embedding := Some (EmbArr v)\<rparr> # post"
        by blast
      have "a # ds = (a # pre) @ p # post \<and> (\<forall>q \<in> set (a # pre). ident q \<noteq> pid) \<and> ident p = pid
        \<and> update_one pid v (a # ds) = (a # pre) @ p\<lparr>embedding := Some (EmbArr v)\<rparr> # post"
        using h False by simp
      then show ?thesis by blast
    qed
  qed
qed

lemma run_invariant_emit:
  assumes "run_invariant docs w" "\<not> is_update ev"
  shows "run_invariant docs (emit ev w)"
proof -
  have "\<And>pid v. UpdateOne pid v \<noteq> ev" using assms(2) by auto
  then have "\<And>pid v. (UpdateOne pid v \<in> set (trace (emit ev w))) = (UpdateOne pid v \<in> set (trace w))"
    by auto
  then show ?thesis using assms(1) by (simp add: run_invariant_def)
qed

lemma run_invariant_conn: "run_invariant docs (w\<lparr>conn := c\<rparr>) = run_invariant docs w"
  by (simp add: run_invariant_def)

lemma run_invariant_update:
  assumes inv: "run_invariant docs w" and v: "v \<noteq> []"
  shows "run_invariant docs (emit (UpdateOne pid v) (w\<lparr>store := update_one pid v (store w)\<rparr>))"
proof -
  let ?w = "emit (UpdateOne pid v) (w\<lparr>store := update_one pid v (store w)\<rparr>)"
  have len: "length (store w) = length docs" using inv by (simp add: run_invariant_def)
  have st: "store ?w = update_one pid v (store w)" by simp
  have tr: "set (trace ?w) = insert (UpdateOne pid v) (set (trace w))" by simp
  have a: "length (store ?w) = length docs" using len by simp
  have b: "store ?w ! k = docs ! k
          \<or> (\<exists>x. x \<noteq> [] \<and> UpdateOne (ident (docs ! k)) x \<in> set (trace ?w)
                \<and> store ?w ! k = (docs ! k)\<lparr>embedding := Some (EmbArr x)\<rparr>)"
    if k: "k < length docs" for k
  proof -
    have old: "store w ! k = docs ! k
          \<or> (\<exists>x. x \<noteq> [] \<and> UpdateOne (ident (docs ! k)) x \<in> set (trace w)
                \<and> store w ! k = (docs ! k)\<lparr>embedding := Some (EmbArr x)\<rparr>)"
      using inv k by (simp add: run_invariant_def)
    have idk: "ident (store w ! k) = ident (docs ! k)" using old by auto
    have upd: "(store w ! k)\<lparr>embedding := Some (EmbArr v)\<rparr> = (docs ! k)\<lparr>embedding := Some (EmbArr v)\<rparr>"
      using old by auto
    from update_one_nth[of k "store w" pid v] k len
    consider "update_one pid v (store w) ! k = store w ! k"
      | "ident (store w ! k) = pid"
        "update_one pid v (store w) ! k = (store w ! k)\<lparr>embedding := Some (EmbArr v)\<rparr>"
      by auto
    then show ?thesis
    proof cases
      case 1
      then show ?thesis using old unfolding st tr by auto
    next
      case 2
      have "v \<noteq> [] \<and> UpdateOne (ident (docs ! k)) v \<in> set (trace ?w)
                \<and> store ?w ! k = (docs ! k)\<lparr>embedding := Some (EmbArr v)\<rparr>"
        using 2 idk upd v unfolding st tr by simp
      then show ?thesis by blast
    qed
  qed
  have c: "x \<noteq> [] \<and> (\<forall>p. lookup q (store ?w) = Some p \<longrightarrow> \<not> is_candidate p)"
    if m: "UpdateOne q x \<in> set (trace ?w)" for q x
  proof (cases "q = pid")
    case True
    have "x \<noteq> []" using m v inv unfolding tr by (auto simp: run_invariant_def)
    moreover have "\<not> is_candidate p" if "lookup q (store ?w) = Some p" for p
    proof -
      from that True have "embedding p = Some (EmbArr v)"
        unfolding st by (auto simp: lookup_update_one)
      then show ?thesis using v by (simp add: is_candidate_def)
    qed
    ultimately show ?thesis by blast
  next
    case False
    then have "UpdateOne q x \<in> set (trace w)" using m unfolding tr by simp
    then have "x \<noteq> [] \<and> (\<forall>p. lookup q (store w) = Some p \<longrightarrow> \<not> is_candidate p)"
      using inv by (simp add: run_invariant_def)
    then show ?thesis using False unfolding st by (simp add: lookup_update_one)
  qed
  show ?thesis
    unfolding run_invariant_def using a b c by blast
qed

lemma run_invariant_main:
  assumes "run_invariant docs w0"
  shows "run_invariant docs (fst (main e outcome client w0))"
proof -
  note e = run_invariant_emit
  have w1: "run_invariant docs (emit (MongoClient (MONGO_URI e)) w0)"
    using assms by (intro e) simp_all
  show ?thesis
  proof (cases outcome)
    case ConnectOk
    define w4 where "w4 = emit (Print (MsgFound (length (find_limit query 1000 (store w0)))))
       (emit (Find 1000) (emit (Print (MsgConnected (MONGO_DB e) (MONGO_COLLECTION e)))
          ((emit (MongoClient (MONGO_URI e)) w0)\<lparr>conn := Opened\<rparr>)))"
    have w4: "run_invariant docs w4"
      unfolding w4_def using w1 by (intro e) (simp_all add: run_invariant_conn)
    obtain s ex where l: "for_loop client (find_limit query 1000 (store w0))
                   (py_range 0 (length (find_limit query 1000 (store w0))) BATCH_SIZE) (w4, 0)
                   = (s, ex)"
      by (cases "for_loop client (find_limit query 1000 (store w0))
                   (py_range 0 (length (find_limit query 1000 (store w0))) BATCH_SIZE) (w4, 0)")
    have s: "run_invariant docs (fst s)"
      using for_loop_preserves[of "run_invariant docs" "(w4, 0)" client
          "find_limit query 1000 (store w0)"
          "py_range 0 (length (find_limit query 1000 (store w0))) BATCH_SIZE",
          OF run_invariant_emit run_invariant_update] w4 l
      by simp
    have f: "run_invariant docs (emit Close (emit (Print (MsgFinished (snd s))) (fst s)\<lparr>conn := Closed\<rparr>))"
      using s by (intro e) (simp_all add: run_invariant_conn e)
    have z: "run_invariant docs (emit Close (emit (Print MsgNoProducts) w4\<lparr>conn := Closed\<rparr>))"
      using w4 by (intro e) (simp_all add: run_invariant_conn e)
    show ?thesis
    proof (cases "find_limit query 1000 (store w0) = []")
      case True
      then show ?thesis
        using z ConnectOk by (simp add: main_def Let_def w4_def)
    next
      case False
      then show ?thesis
        using f s l[unfolded w4_def] ConnectOk
        by (cases ex) (simp_all add: main_def Let_def)
    qed
  next
    case ClientRaises
    then show ?thesis using w1 by (simp add: main_def Let_def e)
  next
    case DbRaises
    have "run_invariant docs (emit Close (emit (Print MsgConnectError)
             ((emit (MongoClient (MONGO_URI e)) w0)\<lparr>conn := Opened\<rparr>)\<lparr>conn := Closed\<rparr>))"
      using w1 by (intro e) (simp_all add: run_invariant_conn e)
    then show ?thesis using DbRaises by (simp add: main_def Let_def)
  next
    case CollectionRaises
    have "run_invariant docs (emit Close (emit (Print MsgConnectError)
             ((emit (MongoClient (MONGO_URI e)) w0)\<lparr>conn := Opened\<rparr>)\<lparr>conn := Closed\<rparr>))"
      using w1 by (intro e) (simp_all add: run_invariant_conn e)
    then show ?thesis using CollectionRaises by (simp add: main_def Let_def)
  next
    case QueryRaises
    have "run_invariant docs (emit (Find 1000)
             (emit (Print (MsgConnected (MONGO_DB e) (MONGO_COLLECTION e)))
                ((emit (MongoClient (MONGO_URI e)) w0)\<lparr>conn := Opened\<rparr>)))"
      using w1 by (intro e) (simp_all add: run_invariant_conn e)
    then show ?thesis using QueryRaises by (simp add: main_def Let_def)
  qed
qed

lemma run_invariant_script: "run_invariant docs (fst (script e outcome client docs))"
proof -
  have "run_invariant docs \<lparr>store = docs, conn = NotOpened, trace = []\<rparr>"
    by (simp add: run_invariant_def)
  then show ?thesis
    using run_invariant_main[of docs "\<lparr>store = docs, conn = NotOpened, trace = []\<rparr>" e outcome client]
    by (simp add: script_def Let_def)
qed

text \<open>
  Claim C10. Every vector that a run writes is non-empty. An update changes nothing but
  the embedding of the first document with the identifier, and nothing at all when no
  document has it; so after a run every document is as it was, or as it was but for an
  embedding that some update wrote, and none is added or removed. The document that the
  identifier of any update finds is no longer a candidate after the run.
\<close>

theorem updates_write_nonempty_vectors:
  "(\<forall>pid v. UpdateOne pid v \<in> set (trace (fst (script e outcome client docs))) \<longrightarrow>
       v \<noteq> []
       \<and> (\<forall>p. lookup pid (store (fst (script e outcome client docs))) = Some p
              \<longrightarrow> \<not> is_candidate p))
   \<and> length (store (fst (script e outcome client docs))) = length docs
   \<and> (\<forall>k < length docs.
        store (fst (script e outcome client docs)) ! k = docs ! k
        \<or> (\<exists>v. v \<noteq> []
              \<and> UpdateOne (ident (docs ! k)) v \<in> set (trace (fst (script e outcome client docs)))
              \<and> store (fst (script e outcome client docs)) ! k
                  = (docs ! k)\<lparr>embedding := Some (EmbArr v)\<rparr>))
   \<and> (((\<forall>p \<in> set ds. ident p \<noteq> pid) \<and> update_one pid x ds = ds)
      \<or> (\<exists>pre p post. ds = pre @ p # post \<and> (\<forall>q \<in> set pre. ident q \<noteq> pid) \<and> ident p = pid
           \<and> update_one pid x ds = pre @ p\<lparr>embedding := Some (EmbArr x)\<rparr> # post))"
proof -
  have "run_invariant docs (fst (script e outcome client docs))"
    by (rule run_invariant_script)
  then show ?thesis
    unfolding run_invariant_def using update_one_cases[of ds pid x] by blast
qed

theorem updates_write_nonempty_vectors_witness:
  "UpdateOne 0 [1]
     \<in> set (trace (fst (script sample_env ConnectOk sample_provider (sample_products 2))))
   \<and> lookup 0 (store (fst (script sample_env ConnectOk sample_provider (sample_products 2))))
       = Some ((sample_product 0)\<lparr>embedding := Some (EmbArr [1])\<rparr>)
   \<and> \<not> is_candidate ((sample_product 0)\<lparr>embedding := Some (EmbArr [1])\<rparr>)
   \<and> store (fst (script sample_env ConnectOk sample_provider (sample_products 2))) ! 1
       = (sample_product 1)\<lparr>embedding := Some (EmbArr [1])\<rparr>"
proof -
  note t = updates_write_nonempty_vectors[of sample_env ConnectOk sample_provider
      "sample_products 2" "sample_products 2" 0 "[1]"]
  have m: "UpdateOne 0 [1]
     \<in> set (trace (fst (script sample_env ConnectOk sample_provider (sample_products 2))))"
    by (simp add: sample_run_ok)
  have l: "lookup 0 (store (fst (script sample_env ConnectOk sample_provider (sample_products 2))))
       = Some ((sample_product 0)\<lparr>embedding := Some (EmbArr [1])\<rparr>)"
    by (simp add: sample_run_ok lookup_def sample_product_def)
  have c: "\<not> is_candidate ((sample_product 0)\<lparr>embedding := Some (EmbArr [1])\<rparr>)"
    using t m l by blast
  have s: "store (fst (script sample_env ConnectOk sample_provider (sample_products 2))) ! 1
       = (sample_product 1)\<lparr>embedding := Some (EmbArr [1])\<rparr>"
    by (simp add: sample_run_ok)
  show ?thesis using m l c s by blast
qed


subsection \<open>A run over 25 candidates\<close>

lemma filter_position_events:
  assumes "\<And>pid v. \<not> P (UpdateOne pid v)" "\<And>pid. \<not> P (Print (MsgUpdated pid))"
    "\<And>pid. \<not> P (Print (MsgSkipping pid))"
  shows "filter P (concat (map position_events zs)) = []"
  using assms by (induction zs) auto

lemma filter_response_events:
  assumes "\<And>pid v. \<not> P (UpdateOne pid v)" "\<And>pid. \<not> P (Print (MsgUpdated pid))"
    "\<And>pid. \<not> P (Print (MsgSkipping pid))" "\<not> P (Print MsgRawResponse)"
    "\<And>k. \<not> P (Print (MsgBatchError k))" "\<And>x. \<not> P (Print (MsgErrorDetails x))"
  shows "filter P (response_events i ids r) = []"
  using assms filter_position_events[of P, OF assms(1,2,3)]
  by (auto simp: response_events_def split: response.splits option.splits error_body.splits)

lemma batch_events_embed:
  "filter is_embed (batch_events i texts ids r) = [EmbedContent EMBEDDING_MODEL texts]"
  by (simp add: batch_events_def filter_response_events)

lemma batch_events_view:
  "filter (\<lambda>ev. is_embed ev \<or> is_sleep ev) (batch_events i texts ids r)
     = EmbedContent EMBEDDING_MODEL texts # (if r = Raises BadBody then [] else [Sleep 60])"
  by (simp add: batch_events_def filter_response_events)

lemma batch_events_summary: "filter is_summary (batch_events i texts ids r) = []"
  by (simp add: batch_events_def filter_response_events)

lemma process_batch_summary:
  assumes "i < length ps" and d: "\<forall>j ts. client j ts \<noteq> Raises BadBody"
  shows "calls_made (fst (fst (process_batch client ps i s))) = Suc (calls_made (fst s))"
    and "filter (\<lambda>ev. is_embed ev \<or> is_sleep ev) (trace (fst (fst (process_batch client ps i s))))
         = filter (\<lambda>ev. is_embed ev \<or> is_sleep ev) (trace (fst s))
           @ [EmbedContent EMBEDDING_MODEL (map text_to_embed (slice ps i (i + BATCH_SIZE))),
              Sleep 60]"
    and "filter is_summary (trace (fst (fst (process_batch client ps i s))))
         = filter is_summary (trace (fst s))"
    and "snd (fst (process_batch client ps i s))
         = snd s + length (filter truthy (take (length (slice ps i (i + BATCH_SIZE)))
             (vectors_of (client (calls_made (fst s))
                (map text_to_embed (slice ps i (i + BATCH_SIZE)))))))"
    and "snd (process_batch client ps i s) = None"
proof -
  obtain w cnt where s: "s = (w, cnt)" by (cases s)
  show "calls_made (fst (fst (process_batch client ps i s))) = Suc (calls_made (fst s))"
    unfolding s process_batch_closed[OF assms(1)]
    by (simp add: calls_made_def batch_events_embed)
  show "filter (\<lambda>ev. is_embed ev \<or> is_sleep ev) (trace (fst (fst (process_batch client ps i s))))
         = filter (\<lambda>ev. is_embed ev \<or> is_sleep ev) (trace (fst s))
           @ [EmbedContent EMBEDDING_MODEL (map text_to_embed (slice ps i (i + BATCH_SIZE))),
              Sleep 60]"
    unfolding s process_batch_closed[OF assms(1)]
    by (simp add: batch_events_view d)
  show "filter is_summary (trace (fst (fst (process_batch client ps i s))))
         = filter is_summary (trace (fst s))"
    unfolding s process_batch_closed[OF assms(1)]
    by (simp add: batch_events_summary)
  show "snd (fst (process_batch client ps i s))
         = snd s + length (filter truthy (take (length (slice ps i (i + BATCH_SIZE)))
             (vectors_of (client (calls_made (fst s))
                (map text_to_embed (slice ps i (i + BATCH_SIZE)))))))"
    unfolding s process_batch_closed[OF assms(1)]
    by simp
  show "snd (process_batch client ps i s) = None"
    unfolding s process_batch_closed[OF assms(1)]
    by (simp add: escapes_def d)
qed

lemma py_range_25: "py_range 0 25 BATCH_SIZE = [0, 10, 20]"
  by (simp add: py_range.simps[of 0] py_range.simps[of 10] py_range.simps[of 20]
      py_range.simps[of 30] BATCH_SIZE_def)

lemma sample_count:
  "length (filter truthy (take (length b) (vectors_of (sample_provider k (map text_to_embed b)))))
     = length b"
  by (simp add: sample_provider_def filter_map o_def truthy_def)

lemma sample_select: "find_limit query 1000 (sample_products 25) = sample_products 25"
proof -
  have "filter query (sample_products 25) = sample_products 25"
    by (simp add: sample_products_def filter_map o_def query_is_candidate sample_candidate)
  moreover have "length (sample_products 25) = 25"
    by (simp add: sample_products_def)
  ultimately show ?thesis by (simp add: find_limit_def)
qed

text \<open>
  With 25 candidates, a run in which no error of the provider carries a response that
  fails to decode makes three provider calls, each followed by a pause, whatever the calls
  return, and ends with the summary.
\<close>

lemma three_batches_when_errors_decode:
  assumes k: "\<not> key_missing (GEMINI_API_KEY e)"
    and n: "length (find_limit query 1000 docs) = 25"
    and d: "\<forall>j ts. client j ts \<noteq> Raises BadBody"
  shows "map length (batches (find_limit query 1000 docs)) = [10, 10, 5]
     \<and> filter (\<lambda>ev. is_embed ev \<or> is_sleep ev) (trace (fst (script e ConnectOk client docs)))
         = [EmbedContent EMBEDDING_MODEL
              (map text_to_embed (batches (find_limit query 1000 docs) ! 0)), Sleep 60,
            EmbedContent EMBEDDING_MODEL
              (map text_to_embed (batches (find_limit query 1000 docs) ! 1)), Sleep 60,
            EmbedContent EMBEDDING_MODEL
              (map text_to_embed (batches (find_limit query 1000 docs) ! 2)), Sleep 60]
     \<and> filter is_summary (trace (fst (script e ConnectOk client docs)))
         = [Print (MsgFinished
             (length (filter truthy (take (length (batches (find_limit query 1000 docs) ! 0))
                (vectors_of (client 0
                   (map text_to_embed (batches (find_limit query 1000 docs) ! 0))))))
              + length (filter truthy (take (length (batches (find_limit query 1000 docs) ! 1))
                (vectors_of (client 1
                   (map text_to_embed (batches (find_limit query 1000 docs) ! 1))))))
              + length (filter truthy (take (length (batches (find_limit query 1000 docs) ! 2))
                (vectors_of (client 2
                   (map text_to_embed (batches (find_limit query 1000 docs) ! 2))))))))]"
proof -
  define ps where "ps = find_limit query 1000 docs"
  have len: "length ps = 25" using n by (simp add: ps_def)
  have ne: "ps \<noteq> []" using len by auto
  define b0 where "b0 = slice ps 0 (0 + BATCH_SIZE)"
  define b1 where "b1 = slice ps 10 (10 + BATCH_SIZE)"
  define b2 where "b2 = slice ps 20 (20 + BATCH_SIZE)"
  have bs: "batches ps = [b0, b1, b2]"
    by (simp add: batches_def len py_range_25 b0_def b1_def b2_def)
  have lens: "length b0 = 10" "length b1 = 10" "length b2 = 5"
    by (simp_all add: b0_def b1_def b2_def slice_def BATCH_SIZE_def len)
  define w4 where "w4 = emit (Print (MsgFound 25))
       (emit (Find 1000) (emit (Print (MsgConnected (MONGO_DB e) (MONGO_COLLECTION e)))
          ((emit (MongoClient (MONGO_URI e)) \<lparr>store = docs, conn = NotOpened, trace = []\<rparr>)
             \<lparr>conn := Opened\<rparr>)))"
  define s1 where "s1 = fst (process_batch client ps 0 (w4, 0))"
  define s2 where "s2 = fst (process_batch client ps 10 s1)"
  define s3 where "s3 = fst (process_batch client ps 20 s2)"
  have w4: "calls_made w4 = 0"
      "filter (\<lambda>ev. is_embed ev \<or> is_sleep ev) (trace w4) = []"
      "filter is_summary (trace w4) = []"
    by (simp_all add: w4_def calls_made_def)
  have i: "0 < length ps" "10 < length ps" "20 < length ps" using len by simp_all
  note p1 = process_batch_summary[OF i(1) d, where s = "(w4, 0)", folded s1_def b0_def]
  note p2 = process_batch_summary[OF i(2) d, where s = s1, folded s2_def b1_def]
  note p3 = process_batch_summary[OF i(3) d, where s = s2, folded s3_def b2_def]
  have e1: "process_batch client ps 0 (w4, 0) = (s1, None)"
    using p1(5) by (simp add: s1_def prod_eq_iff)
  have e2: "process_batch client ps 10 s1 = (s2, None)"
    using p2(5) by (simp add: s2_def prod_eq_iff)
  have e3: "process_batch client ps 20 s2 = (s3, None)"
    using p3(5) by (simp add: s3_def prod_eq_iff)
  have c1: "calls_made (fst s1) = 1" using p1(1) w4(1) by simp
  have c2: "calls_made (fst s2) = 2" using p2(1) c1 by simp
  have v3: "filter (\<lambda>ev. is_embed ev \<or> is_sleep ev) (trace (fst s3))
      = [EmbedContent EMBEDDING_MODEL (map text_to_embed b0), Sleep 60,
         EmbedContent EMBEDDING_MODEL (map text_to_embed b1), Sleep 60,
         EmbedContent EMBEDDING_MODEL (map text_to_embed b2), Sleep 60]"
    using p1(2) p2(2) p3(2) w4(2) by simp
  have f3: "filter is_summary (trace (fst s3)) = []"
    using p1(3) p2(3) p3(3) w4(3) by simp
  have n3: "snd s3 =
      length (filter truthy (take (length b0) (vectors_of (client 0 (map text_to_embed b0)))))
      + length (filter truthy (take (length b1) (vectors_of (client 1 (map text_to_embed b1)))))
      + length (filter truthy (take (length b2) (vectors_of (client 2 (map text_to_embed b2)))))"
    using p1(4) p2(4) p3(4) w4(1) c1 c2 by simp
  have m: "script e ConnectOk client docs
      = (emit Close (emit (Print (MsgFinished (snd s3))) (fst s3)\<lparr>conn := Closed\<rparr>), Returned)"
    using k ne
    by (simp add: script_def main_def Let_def ps_def[symmetric] len py_range_25
        w4_def[symmetric] e1 e2 e3)
  show ?thesis
    unfolding ps_def[symmetric] bs m
    using lens v3 f3 n3 by simp
qed

text \<open>
  Claim C7 fails on the code. With 25 candidates and a provider whose first call raises
  with a response that is not JSON, the handler's own \<open>e.response.json()\<close> raises: the
  run makes one provider call, never pauses, prints no summary and ends with an uncaught
  exception.
\<close>

theorem undecodable_error_ends_the_run:
  "length (find_limit query 1000 (sample_products 25)) = 25
   \<and> garbled_provider 0 (map text_to_embed (batches (sample_products 25) ! 0)) = Raises BadBody
   \<and> filter (\<lambda>ev. is_embed ev \<or> is_sleep ev)
        (trace (fst (script sample_env ConnectOk garbled_provider (sample_products 25))))
       = [EmbedContent EMBEDDING_MODEL (map text_to_embed (batches (sample_products 25) ! 0))]
   \<and> filter is_summary
        (trace (fst (script sample_env ConnectOk garbled_provider (sample_products 25)))) = []
   \<and> snd (script sample_env ConnectOk garbled_provider (sample_products 25))
       = Uncaught JSONDecodeError
   \<and> conn (fst (script sample_env ConnectOk garbled_provider (sample_products 25))) = Opened"
proof -
  define ps where "ps = sample_products 25"
  have len: "length ps = 25" by (simp add: ps_def sample_products_def)
  have ne: "ps \<noteq> []" using len by auto
  have sel: "find_limit query 1000 ps = ps" by (simp add: ps_def sample_select)
  have b0: "batches ps ! 0 = slice ps 0 (0 + BATCH_SIZE)"
    by (simp add: batches_def len py_range_25)
  define w4 where "w4 = emit (Print (MsgFound 25))
       (emit (Find 1000) (emit (Print (MsgConnected (MONGO_DB sample_env)
          (MONGO_COLLECTION sample_env)))
          ((emit (MongoClient (MONGO_URI sample_env))
             \<lparr>store = ps, conn = NotOpened, trace = []\<rparr>)\<lparr>conn := Opened\<rparr>)))"
  have i: "0 < length ps" using len by simp
  have w4: "filter (\<lambda>ev. is_embed ev \<or> is_sleep ev) (trace w4) = []"
      "filter is_summary (trace w4) = []" "conn w4 = Opened"
    by (simp_all add: w4_def)
  define s1 where "s1 = fst (process_batch garbled_provider ps 0 (w4, 0))"
  have e1: "process_batch garbled_provider ps 0 (w4, 0) = (s1, Some JSONDecodeError)"
    unfolding s1_def process_batch_closed[OF i]
    by (simp add: garbled_provider_def escapes_def)
  have v1: "filter (\<lambda>ev. is_embed ev \<or> is_sleep ev) (trace (fst s1))
      = [EmbedContent EMBEDDING_MODEL (map text_to_embed (slice ps 0 (0 + BATCH_SIZE)))]"
    unfolding s1_def process_batch_closed[OF i]
    by (simp add: batch_events_view w4 garbled_provider_def)
  have f1: "filter is_summary (trace (fst s1)) = []"
    unfolding s1_def process_batch_closed[OF i]
    by (simp add: batch_events_summary w4)
  have c1: "conn (fst s1) = Opened"
    unfolding s1_def process_batch_closed[OF i]
    by (simp add: w4)
  have m: "script sample_env ConnectOk garbled_provider ps = (fst s1, Uncaught JSONDecodeError)"
    using ne
    by (simp add: script_def sample_key main_def Let_def sel len py_range_25
        w4_def[symmetric] e1)
  show ?thesis
    unfolding ps_def[symmetric] m sel b0
    using len v1 f1 c1 by (simp add: garbled_provider_def)
qed


subsection \<open>The connection\<close>

lemma process_batch_returns:
  assumes "\<forall>j ts. client j ts \<noteq> Raises BadBody"
  shows "snd (process_batch client ps i s) = None"
  using assms
  by (cases s) (simp add: process_batch_def Let_def try_batch_closed escapes_def)

lemma for_loop_returns:
  assumes "\<forall>j ts. client j ts \<noteq> Raises BadBody"
  shows "snd (for_loop client ps is s) = None"
proof (induction "is" arbitrary: s)
  case Nil
  then show ?case by simp
next
  case (Cons i "is")
  obtain s' where "process_batch client ps i s = (s', None)"
    using process_batch_returns[OF assms, of ps i s]
    by (cases "process_batch client ps i s") simp
  then show ?case using Cons.IH by simp
qed

text \<open>
  The exits that close the connection: a failure of the database or collection access, the
  exit for zero candidates, and the end of a run in which no error of the provider carries
  a response that fails to decode. When the client cannot be built there is no connection.
\<close>

lemma listed_exits_release_connection:
  assumes k: "\<not> key_missing (GEMINI_API_KEY e)"
  shows "outcome = DbRaises \<or> outcome = CollectionRaises \<Longrightarrow>
           conn (fst (script e outcome client docs)) = Closed
           \<and> last (trace (fst (script e outcome client docs))) = Close
           \<and> snd (script e outcome client docs) = SysExit 1"
    and "conn (fst (script e ClientRaises client docs)) = NotOpened
           \<and> snd (script e ClientRaises client docs) = Uncaught UnboundLocalError"
    and "\<forall>j ts. client j ts \<noteq> Raises BadBody \<Longrightarrow>
           conn (fst (script e ConnectOk client docs)) = Closed
           \<and> last (trace (fst (script e ConnectOk client docs))) = Close
           \<and> exit_status (snd (script e ConnectOk client docs)) = 0"
proof -
  show "outcome = DbRaises \<or> outcome = CollectionRaises \<Longrightarrow>
           conn (fst (script e outcome client docs)) = Closed
           \<and> last (trace (fst (script e outcome client docs))) = Close
           \<and> snd (script e outcome client docs) = SysExit 1"
    using k by (auto simp: script_def main_def Let_def)
  show "conn (fst (script e ClientRaises client docs)) = NotOpened
           \<and> snd (script e ClientRaises client docs) = Uncaught UnboundLocalError"
    using k by (simp add: script_def main_def Let_def)
  assume d: "\<forall>j ts. client j ts \<noteq> Raises BadBody"
  define ps where "ps = find_limit query 1000 docs"
  define w4 where "w4 = emit (Print (MsgFound (length ps)))
       (emit (Find 1000) (emit (Print (MsgConnected (MONGO_DB e) (MONGO_COLLECTION e)))
          ((emit (MongoClient (MONGO_URI e)) \<lparr>store = docs, conn = NotOpened, trace = []\<rparr>)
             \<lparr>conn := Opened\<rparr>)))"
  obtain s where l: "for_loop client ps (py_range 0 (length ps) BATCH_SIZE) (w4, 0) = (s, None)"
    using for_loop_returns[OF d, of ps "py_range 0 (length ps) BATCH_SIZE" "(w4, 0)"]
    by (cases "for_loop client ps (py_range 0 (length ps) BATCH_SIZE) (w4, 0)") simp
  show "conn (fst (script e ConnectOk client docs)) = Closed
           \<and> last (trace (fst (script e ConnectOk client docs))) = Close
           \<and> exit_status (snd (script e ConnectOk client docs)) = 0"
    using k l
    by (simp add: script_def main_def Let_def ps_def[symmetric] w4_def[symmetric])
qed

text \<open>
  Claim C2 fails on the code. The query of line 46 is outside every \<open>try\<close> and
  \<open>close\<close> is not in a \<open>finally\<close>: when the server cannot be reached the run ends
  there with an uncaught exception, after the success message, with the client still
  open. The same happens when the error handler of a batch raises.
\<close>

theorem query_failure_leaves_connection_open:
  "script sample_env QueryRaises client docs =
     (\<lparr>store = docs, conn = Opened,
       trace = [MongoClient (MONGO_URI sample_env),
                Print (MsgConnected (MONGO_DB sample_env) (MONGO_COLLECTION sample_env)),
                Find 1000]\<rparr>,
      Uncaught ServerSelectionTimeoutError)
   \<and> conn (fst (script sample_env QueryRaises client docs)) = Opened
   \<and> Close \<notin> set (trace (fst (script sample_env QueryRaises client docs)))
   \<and> exit_status (snd (script sample_env QueryRaises client docs)) = 1
   \<and> conn (fst (script sample_env ConnectOk garbled_provider (sample_products 2))) = Opened
   \<and> Close \<notin> set (trace (fst (script sample_env ConnectOk garbled_provider (sample_products 2))))
   \<and> snd (script sample_env ConnectOk garbled_provider (sample_products 2))
       = Uncaught JSONDecodeError"
proof -
  have q: "script sample_env QueryRaises client docs =
     (\<lparr>store = docs, conn = Opened,
       trace = [MongoClient (MONGO_URI sample_env),
                Print (MsgConnected (MONGO_DB sample_env) (MONGO_COLLECTION sample_env)),
                Find 1000]\<rparr>,
      Uncaught ServerSelectionTimeoutError)"
    by (simp add: script_def sample_key main_def Let_def emit_def)
  show ?thesis
    unfolding q sample_run_garbled by simp
qed

end
